theory Spec2Isabelle
  imports Complex_Main "HOL-Library.Word"
begin

section \<open>The DAW engine: data model\<close>

text \<open>
  A shallow embedding of \<^verbatim>\<open>daw_engine.c\<close> and of the limits and types of
  \<^verbatim>\<open>daw_engine.h\<close>.

  \<^item> \<^verbatim>\<open>uint32_t\<close> is \<open>32 word\<close> and \<^verbatim>\<open>uint64_t\<close> is \<open>64 word\<close>: their arithmetic
    wraps as in C.
  \<^item> \<^verbatim>\<open>float\<close> and \<^verbatim>\<open>double\<close> are idealised as \<open>real\<close>: comparisons, branches and
    the algebra of the code are kept, rounding, infinities and NaN are not represented.
    Where a statement depends on the rounding of the playhead, the callback is taken
    with that rounding as a parameter (\<open>audio_cb_r\<close>).
  \<^item> The global \<^verbatim>\<open>G\<close> is a record passed in and returned; the function-local
    \<^verbatim>\<open>static uint32_t next_id\<close> of \<^verbatim>\<open>daw_track_create\<close> is a second component of
    the process state, because \<^verbatim>\<open>memset(&G, 0, sizeof(G))\<close> does not reach it.
  \<^item> Fixed arrays are lists of the declared capacity; heap buffers of samples are lists
    (a null pointer is the empty list).
  \<^item> The device handle and the mutex carry no data that any function reads back and are
    left out; every function body is taken as one atomic step, which is what the lock
    provides.
  \<^item> The field names of the three C structs are prefixed (\<open>cl_\<close>, \<open>t_\<close>, \<open>g_\<close>), since
    the structs share names such as \<^verbatim>\<open>active\<close> and \<^verbatim>\<open>id\<close>.
\<close>

type_synonym u32 = "32 word"
type_synonym u64 = "64 word"

subsection \<open>Limits of the header\<close>

definition DAW_MAX_TRACKS :: nat where
  "DAW_MAX_TRACKS = 64"

definition DAW_MAX_CLIPS_PER_TRACK :: nat where
  "DAW_MAX_CLIPS_PER_TRACK = 128"

definition DAW_CHANNELS :: nat where
  "DAW_CHANNELS = 2"

definition DAW_DEFAULT_SR :: u32 where
  "DAW_DEFAULT_SR = 44100"

definition DAW_DEFAULT_BPM :: real where
  "DAW_DEFAULT_BPM = 120"

definition DAW_DEFAULT_BUFFER :: nat where
  "DAW_DEFAULT_BUFFER = 512"

subsection \<open>Result codes and enums\<close>

datatype daw_result_t =
    DAW_OK
  | DAW_ERR_NOT_INIT
  | DAW_ERR_ALREADY_INIT
  | DAW_ERR_AUDIO_DEVICE
  | DAW_ERR_INVALID_TRACK
  | DAW_ERR_FILE_NOT_FOUND
  | DAW_ERR_OUT_OF_MEMORY
  | DAW_ERR_INVALID_PARAM
  | DAW_ERR_CLIP_FULL

fun result_code :: "daw_result_t \<Rightarrow> int" where
  "result_code DAW_OK = 0"
| "result_code DAW_ERR_NOT_INIT = - 1"
| "result_code DAW_ERR_ALREADY_INIT = - 2"
| "result_code DAW_ERR_AUDIO_DEVICE = - 3"
| "result_code DAW_ERR_INVALID_TRACK = - 4"
| "result_code DAW_ERR_FILE_NOT_FOUND = - 5"
| "result_code DAW_ERR_OUT_OF_MEMORY = - 6"
| "result_code DAW_ERR_INVALID_PARAM = - 7"
| "result_code DAW_ERR_CLIP_FULL = - 8"

datatype daw_transport_state_t =
    DAW_STATE_STOPPED
  | DAW_STATE_PLAYING
  | DAW_STATE_RECORDING
  | DAW_STATE_PAUSED

datatype daw_track_type_t =
    DAW_TRACK_AUDIO
  | DAW_TRACK_MIDI
  | DAW_TRACK_BUS
  | DAW_TRACK_MASTER

subsection \<open>Structs\<close>

record daw_config_t =
  sample_rate :: u32
  bit_depth :: u32
  buffer_frames :: u32
  cfg_bpm :: real

record clip_t =
  cl_l :: "real list"
  cl_r :: "real list"
  cl_n :: u64
  cl_start_beat :: real
  cl_len_beats :: real
  cl_active :: bool

record track_t =
  t_active :: bool
  t_id :: u32
  t_type :: daw_track_type_t
  t_name :: string
  t_vol :: real
  t_pan :: real
  t_muted :: bool
  t_soloed :: bool
  t_armed :: bool
  t_peak_l :: real
  t_peak_r :: real
  t_clips :: "clip_t list"
  t_n_clips :: u32

record ctx_t =
  g_ready :: bool
  g_state :: daw_transport_state_t
  g_bpm :: real
  g_pos_beats :: real
  g_pos_secs :: real
  g_loop_on :: bool
  g_loop_start :: real
  g_loop_end :: real
  g_sr :: u32
  g_bits :: u32
  g_buf_frames :: u32
  g_tracks :: "track_t list"
  g_n_tracks :: u32
  g_any_solo :: bool
  g_master_vol :: real
  g_master_peak_l :: real
  g_master_peak_r :: real

record daw_state_t =
  s_transport :: daw_transport_state_t
  s_bpm :: real
  s_sample_rate :: u32
  s_bit_depth :: u32
  s_position_beats :: real
  s_position_seconds :: real
  s_bar :: u32
  s_beat :: u32
  s_master_volume :: real
  s_master_peak_l :: real
  s_master_peak_r :: real
  s_track_count :: u32
  s_loop_enabled :: bool
  s_loop_start_beat :: real
  s_loop_end_beat :: real

text \<open>The all-zero values that \<^verbatim>\<open>memset(.., 0, ..)\<close> and static initialisation produce.\<close>

definition zero_clip :: clip_t where
  "zero_clip = \<lparr>cl_l = [], cl_r = [], cl_n = 0, cl_start_beat = 0, cl_len_beats = 0,
     cl_active = False\<rparr>"

definition zero_track :: track_t where
  "zero_track = \<lparr>t_active = False, t_id = 0, t_type = DAW_TRACK_AUDIO, t_name = [],
     t_vol = 0, t_pan = 0, t_muted = False, t_soloed = False, t_armed = False,
     t_peak_l = 0, t_peak_r = 0,
     t_clips = replicate DAW_MAX_CLIPS_PER_TRACK zero_clip, t_n_clips = 0\<rparr>"

definition zero_ctx :: ctx_t where
  "zero_ctx = \<lparr>g_ready = False, g_state = DAW_STATE_STOPPED, g_bpm = 0, g_pos_beats = 0,
     g_pos_secs = 0, g_loop_on = False, g_loop_start = 0, g_loop_end = 0,
     g_sr = 0, g_bits = 0, g_buf_frames = 0,
     g_tracks = replicate DAW_MAX_TRACKS zero_track, g_n_tracks = 0, g_any_solo = False,
     g_master_vol = 0, g_master_peak_l = 0, g_master_peak_r = 0\<rparr>"

section \<open>Helpers\<close>

definition clampf :: "real \<Rightarrow> real \<Rightarrow> real \<Rightarrow> real" where
  "clampf v lo hi = (if v < lo then lo else if v > hi then hi else v)"

text \<open>The clamp of the specification's wording, to compare \<open>clampf\<close> with.\<close>

definition spec_clamp :: "real \<Rightarrow> real \<Rightarrow> real \<Rightarrow> real" where
  "spec_clamp v lo hi = max lo (min hi v)"

definition pan_gains :: "real \<Rightarrow> real \<times> real" where
  "pan_gains pan = (let a = (pan + 1) * (pi / 4) in (cos a, sin a))"

definition peak_update :: "real \<Rightarrow> real \<Rightarrow> real" where
  "peak_update p s = (let a = \<bar>s\<bar> in if a > p then a else p * 0.9997)"

text \<open>
  \<^verbatim>\<open>fmod(x, y)\<close> of the C library: \<open>x\<close> minus \<open>y\<close> times the quotient truncated
  towards zero. (For \<open>y = 0\<close> C gives NaN; the engine calls it with
  \<open>loop_end - loop_start\<close> only.)
\<close>

definition trunc_real :: "real \<Rightarrow> int" where
  "trunc_real x = (if 0 \<le> x then \<lfloor>x\<rfloor> else \<lceil>x\<rceil>)"

definition fmod :: "real \<Rightarrow> real \<Rightarrow> real" where
  "fmod x y = x - y * of_int (trunc_real (x / y))"

text \<open>
  \<^verbatim>\<open>find_track\<close> returns a pointer to the first active slot with the id; the model
  returns the slot's index.
\<close>

fun find_track_from :: "track_t list \<Rightarrow> u32 \<Rightarrow> nat \<Rightarrow> nat option" where
  "find_track_from [] tid i = None"
| "find_track_from (t # ts) tid i =
     (if t_active t \<and> t_id t = tid then Some i else find_track_from ts tid (Suc i))"

definition find_track :: "ctx_t \<Rightarrow> u32 \<Rightarrow> nat option" where
  "find_track G tid = find_track_from (g_tracks G) tid 0"

definition refresh_solo :: "ctx_t \<Rightarrow> ctx_t" where
  "refresh_solo G = G\<lparr>g_any_solo := list_ex (\<lambda>t. t_active t \<and> t_soloed t) (g_tracks G)\<rparr>"

section \<open>Lifecycle\<close>

text \<open>What the audio backend answers to \<^verbatim>\<open>ma_device_init\<close> and \<^verbatim>\<open>ma_device_start\<close>.\<close>

datatype device_outcome = DEVICE_INIT_FAILS | DEVICE_START_FAILS | DEVICE_STARTED

text \<open>A null \<^verbatim>\<open>cfg\<close> is \<open>None\<close>.\<close>

definition daw_init :: "ctx_t \<Rightarrow> daw_config_t option \<Rightarrow> device_outcome \<Rightarrow> daw_result_t \<times> ctx_t" where
  "daw_init G cfg dev =
     (if g_ready G then (DAW_ERR_ALREADY_INIT, G)
      else
        let G1 = zero_ctx\<lparr>
              g_sr := (case cfg of Some c \<Rightarrow> sample_rate c | None \<Rightarrow> DAW_DEFAULT_SR),
              g_bits := (case cfg of Some c \<Rightarrow> bit_depth c | None \<Rightarrow> 24),
              g_buf_frames := (case cfg of Some c \<Rightarrow> buffer_frames c
                               | None \<Rightarrow> of_nat DAW_DEFAULT_BUFFER),
              g_bpm := (case cfg of Some c \<Rightarrow> if cfg_bpm c > 0 then cfg_bpm c else DAW_DEFAULT_BPM
                        | None \<Rightarrow> DAW_DEFAULT_BPM),
              g_master_vol := 1,
              g_state := DAW_STATE_STOPPED\<rparr>
        in case dev of
             DEVICE_INIT_FAILS \<Rightarrow> (DAW_ERR_AUDIO_DEVICE, G1)
           | DEVICE_START_FAILS \<Rightarrow> (DAW_ERR_AUDIO_DEVICE, G1)
           | DEVICE_STARTED \<Rightarrow> (DAW_OK, G1\<lparr>g_ready := True\<rparr>))"

definition daw_shutdown :: "ctx_t \<Rightarrow> daw_result_t \<times> ctx_t" where
  "daw_shutdown G = (if \<not> g_ready G then (DAW_ERR_NOT_INIT, G) else (DAW_OK, zero_ctx))"

text \<open>
  \<^verbatim>\<open>daw_get_state\<close>: \<open>out_ok\<close> says that the \<^verbatim>\<open>out\<close> pointer is not null; the
  snapshot written through it is returned. The casts to \<^verbatim>\<open>uint32_t\<close> truncate towards
  zero (they are defined in C for values in range).
\<close>

definition daw_get_state :: "ctx_t \<Rightarrow> bool \<Rightarrow> daw_result_t \<times> daw_state_t option" where
  "daw_get_state G out_ok =
     (if \<not> g_ready G then (DAW_ERR_NOT_INIT, None)
      else if \<not> out_ok then (DAW_ERR_INVALID_PARAM, None)
      else (DAW_OK, Some \<lparr>
        s_transport = g_state G,
        s_bpm = g_bpm G,
        s_sample_rate = g_sr G,
        s_bit_depth = g_bits G,
        s_position_beats = g_pos_beats G,
        s_position_seconds = g_pos_secs G,
        s_bar = word_of_int (trunc_real (g_pos_beats G / 4)) + 1,
        s_beat = word_of_int (trunc_real (fmod (g_pos_beats G) 4)) + 1,
        s_master_volume = g_master_vol G,
        s_master_peak_l = g_master_peak_l G,
        s_master_peak_r = g_master_peak_r G,
        s_track_count = g_n_tracks G,
        s_loop_enabled = g_loop_on G,
        s_loop_start_beat = g_loop_start G,
        s_loop_end_beat = g_loop_end G\<rparr>))"

section \<open>Transport\<close>

definition daw_play :: "ctx_t \<Rightarrow> daw_result_t \<times> ctx_t" where
  "daw_play G =
     (if \<not> g_ready G then (DAW_ERR_NOT_INIT, G)
      else (DAW_OK, G\<lparr>g_state := DAW_STATE_PLAYING\<rparr>))"

definition daw_stop :: "ctx_t \<Rightarrow> daw_result_t \<times> ctx_t" where
  "daw_stop G =
     (if \<not> g_ready G then (DAW_ERR_NOT_INIT, G)
      else (DAW_OK, G\<lparr>g_state := DAW_STATE_STOPPED, g_pos_beats := 0, g_pos_secs := 0\<rparr>))"

definition daw_pause :: "ctx_t \<Rightarrow> daw_result_t \<times> ctx_t" where
  "daw_pause G =
     (if \<not> g_ready G then (DAW_ERR_NOT_INIT, G)
      else (DAW_OK, if g_state G = DAW_STATE_PLAYING then G\<lparr>g_state := DAW_STATE_PAUSED\<rparr> else G))"

definition daw_record :: "ctx_t \<Rightarrow> daw_result_t \<times> ctx_t" where
  "daw_record G =
     (if \<not> g_ready G then (DAW_ERR_NOT_INIT, G)
      else (DAW_OK, G\<lparr>g_state := DAW_STATE_RECORDING\<rparr>))"

definition daw_seek :: "ctx_t \<Rightarrow> real \<Rightarrow> daw_result_t \<times> ctx_t" where
  "daw_seek G beat =
     (if \<not> g_ready G then (DAW_ERR_NOT_INIT, G)
      else if beat < 0 then (DAW_ERR_INVALID_PARAM, G)
      else (DAW_OK, G\<lparr>g_pos_beats := beat, g_pos_secs := beat * (60 / g_bpm G)\<rparr>))"

definition daw_set_bpm :: "ctx_t \<Rightarrow> real \<Rightarrow> daw_result_t \<times> ctx_t" where
  "daw_set_bpm G bpm =
     (if \<not> g_ready G then (DAW_ERR_NOT_INIT, G)
      else if bpm < 1 \<or> bpm > 999 then (DAW_ERR_INVALID_PARAM, G)
      else (DAW_OK, G\<lparr>g_bpm := bpm\<rparr>))"

definition daw_set_loop :: "ctx_t \<Rightarrow> bool \<Rightarrow> real \<Rightarrow> real \<Rightarrow> daw_result_t \<times> ctx_t" where
  "daw_set_loop G en s e =
     (if \<not> g_ready G then (DAW_ERR_NOT_INIT, G)
      else if s \<ge> e then (DAW_ERR_INVALID_PARAM, G)
      else (DAW_OK, G\<lparr>g_loop_on := en, g_loop_start := s, g_loop_end := e\<rparr>))"

section \<open>Master\<close>

definition daw_set_master_volume :: "ctx_t \<Rightarrow> real \<Rightarrow> daw_result_t \<times> ctx_t" where
  "daw_set_master_volume G v =
     (if \<not> g_ready G then (DAW_ERR_NOT_INIT, G)
      else if v < 0 \<or> v > 2 then (DAW_ERR_INVALID_PARAM, G)
      else (DAW_OK, G\<lparr>g_master_vol := v\<rparr>))"

text \<open>\<^verbatim>\<open>daw_get_master_peaks\<close>: \<open>ptrs_ok\<close> says that neither pointer is null.\<close>

definition daw_get_master_peaks :: "ctx_t \<Rightarrow> bool \<Rightarrow> daw_result_t \<times> (real \<times> real) option" where
  "daw_get_master_peaks G ptrs_ok =
     (if \<not> g_ready G then (DAW_ERR_NOT_INIT, None)
      else if \<not> ptrs_ok then (DAW_ERR_INVALID_PARAM, None)
      else (DAW_OK, Some (g_master_peak_l G, g_master_peak_r G)))"

section \<open>Tracks\<close>

text \<open>The \<^verbatim>\<open>%u\<close> conversion of \<^verbatim>\<open>snprintf\<close>: decimal digits, no padding.\<close>

definition digit_char :: "nat \<Rightarrow> char" where
  "digit_char d = ''0123456789'' ! d"

fun show_nat :: "nat \<Rightarrow> string" where
  "show_nat k = (if k < 10 then [digit_char k] else show_nat (k div 10) @ [digit_char (k mod 10)])"

declare show_nat.simps [simp del]

fun tn :: "daw_track_type_t \<Rightarrow> string" where
  "tn DAW_TRACK_AUDIO = ''Audio''"
| "tn DAW_TRACK_MIDI = ''MIDI''"
| "tn DAW_TRACK_BUS = ''Bus''"
| "tn DAW_TRACK_MASTER = ''Master''"

text \<open>The first slot of the table that is not active, as the loop of \<^verbatim>\<open>daw_track_create\<close> finds it.\<close>

fun find_free_from :: "track_t list \<Rightarrow> nat \<Rightarrow> nat option" where
  "find_free_from [] i = None"
| "find_free_from (t # ts) i = (if t_active t then find_free_from ts (Suc i) else Some i)"

text \<open>
  \<^verbatim>\<open>daw_track_create\<close> takes and returns the static counter \<open>next_id\<close>; \<open>out_ok\<close> says
  that \<^verbatim>\<open>out_id\<close> is not null, and the id written through it is the last component.
  The name is cut to the 63 characters that fit the buffer.
\<close>

definition daw_track_create ::
  "ctx_t \<Rightarrow> u32 \<Rightarrow> daw_track_type_t \<Rightarrow> bool \<Rightarrow> daw_result_t \<times> ctx_t \<times> u32 \<times> u32 option" where
  "daw_track_create G next_id ty out_ok =
     (if \<not> g_ready G then (DAW_ERR_NOT_INIT, G, next_id, None)
      else if \<not> out_ok \<or> unat (g_n_tracks G) \<ge> DAW_MAX_TRACKS
        then (DAW_ERR_OUT_OF_MEMORY, G, next_id, None)
      else case find_free_from (g_tracks G) 0 of
          None \<Rightarrow> (DAW_ERR_OUT_OF_MEMORY, G, next_id, None)
        | Some i \<Rightarrow>
            let t = zero_track\<lparr>
                  t_active := True,
                  t_id := next_id,
                  t_type := ty,
                  t_vol := 1,
                  t_pan := 0,
                  t_name := take 63 (tn ty @ '' '' @ show_nat (unat (g_n_tracks G + 1)))\<rparr>
            in (DAW_OK,
                G\<lparr>g_tracks := (g_tracks G)[i := t], g_n_tracks := g_n_tracks G + 1\<rparr>,
                next_id + 1,
                Some next_id))"

text \<open>
  \<^verbatim>\<open>daw_track_destroy\<close> frees the sample buffers of the slot and leaves the slot's
  fields as they are; nothing reads them before \<^verbatim>\<open>daw_track_create\<close> clears the slot.
\<close>

definition daw_track_destroy :: "ctx_t \<Rightarrow> u32 \<Rightarrow> daw_result_t \<times> ctx_t" where
  "daw_track_destroy G tid =
     (if \<not> g_ready G then (DAW_ERR_NOT_INIT, G)
      else case find_track G tid of
          None \<Rightarrow> (DAW_ERR_INVALID_TRACK, G)
        | Some i \<Rightarrow>
            (DAW_OK,
             refresh_solo (G\<lparr>g_tracks := (g_tracks G)[i := (g_tracks G ! i)\<lparr>t_active := False\<rparr>],
                             g_n_tracks := g_n_tracks G - 1\<rparr>)))"

text \<open>The setters share one shape: find the slot, update one field.\<close>

definition update_track :: "ctx_t \<Rightarrow> nat \<Rightarrow> (track_t \<Rightarrow> track_t) \<Rightarrow> ctx_t" where
  "update_track G i f = G\<lparr>g_tracks := (g_tracks G)[i := f (g_tracks G ! i)]\<rparr>"

definition daw_track_set_name :: "ctx_t \<Rightarrow> u32 \<Rightarrow> string option \<Rightarrow> daw_result_t \<times> ctx_t" where
  "daw_track_set_name G tid name =
     (if \<not> g_ready G then (DAW_ERR_NOT_INIT, G)
      else case name of
          None \<Rightarrow> (DAW_ERR_INVALID_PARAM, G)
        | Some s \<Rightarrow>
            (case find_track G tid of
               None \<Rightarrow> (DAW_ERR_INVALID_TRACK, G)
             | Some i \<Rightarrow> (DAW_OK, update_track G i (\<lambda>t. t\<lparr>t_name := take 63 s\<rparr>))))"

definition daw_track_set_vol :: "ctx_t \<Rightarrow> u32 \<Rightarrow> real \<Rightarrow> daw_result_t \<times> ctx_t" where
  "daw_track_set_vol G tid v =
     (if \<not> g_ready G then (DAW_ERR_NOT_INIT, G)
      else case find_track G tid of
          None \<Rightarrow> (DAW_ERR_INVALID_TRACK, G)
        | Some i \<Rightarrow> (DAW_OK, update_track G i (\<lambda>t. t\<lparr>t_vol := clampf v 0 2\<rparr>)))"

definition daw_track_set_pan :: "ctx_t \<Rightarrow> u32 \<Rightarrow> real \<Rightarrow> daw_result_t \<times> ctx_t" where
  "daw_track_set_pan G tid p =
     (if \<not> g_ready G then (DAW_ERR_NOT_INIT, G)
      else case find_track G tid of
          None \<Rightarrow> (DAW_ERR_INVALID_TRACK, G)
        | Some i \<Rightarrow> (DAW_OK, update_track G i (\<lambda>t. t\<lparr>t_pan := clampf p (- 1) 1\<rparr>)))"

definition daw_track_set_mute :: "ctx_t \<Rightarrow> u32 \<Rightarrow> bool \<Rightarrow> daw_result_t \<times> ctx_t" where
  "daw_track_set_mute G tid v =
     (if \<not> g_ready G then (DAW_ERR_NOT_INIT, G)
      else case find_track G tid of
          None \<Rightarrow> (DAW_ERR_INVALID_TRACK, G)
        | Some i \<Rightarrow> (DAW_OK, update_track G i (\<lambda>t. t\<lparr>t_muted := v\<rparr>)))"

definition daw_track_set_solo :: "ctx_t \<Rightarrow> u32 \<Rightarrow> bool \<Rightarrow> daw_result_t \<times> ctx_t" where
  "daw_track_set_solo G tid v =
     (if \<not> g_ready G then (DAW_ERR_NOT_INIT, G)
      else case find_track G tid of
          None \<Rightarrow> (DAW_ERR_INVALID_TRACK, G)
        | Some i \<Rightarrow> (DAW_OK, refresh_solo (update_track G i (\<lambda>t. t\<lparr>t_soloed := v\<rparr>))))"

definition daw_track_set_armed :: "ctx_t \<Rightarrow> u32 \<Rightarrow> bool \<Rightarrow> daw_result_t \<times> ctx_t" where
  "daw_track_set_armed G tid v =
     (if \<not> g_ready G then (DAW_ERR_NOT_INIT, G)
      else case find_track G tid of
          None \<Rightarrow> (DAW_ERR_INVALID_TRACK, G)
        | Some i \<Rightarrow> (DAW_OK, update_track G i (\<lambda>t. t\<lparr>t_armed := v\<rparr>)))"

subsection \<open>Loading a clip\<close>

text \<open>
  What the decoder and the allocator answer during one \<^verbatim>\<open>daw_track_load_file\<close>:
  whether \<^verbatim>\<open>ma_decoder_init_file\<close> succeeds, the length it reports, the stereo frames
  the file holds, and whether each of the three \<^verbatim>\<open>malloc\<close> calls returns a buffer.
\<close>

record load_env =
  dec_opens :: bool
  dec_length :: u64
  dec_pcm :: "(real \<times> real) list"
  ilv_alloc :: bool
  sl_alloc :: bool
  sr_alloc :: bool

text \<open>A null \<^verbatim>\<open>path\<close> is \<open>None\<close>. \<^verbatim>\<open>G.sr * 30\<close> is a 32-bit product.\<close>

definition daw_track_load_file ::
  "ctx_t \<Rightarrow> u32 \<Rightarrow> string option \<Rightarrow> load_env \<Rightarrow> daw_result_t \<times> ctx_t" where
  "daw_track_load_file G tid path env =
     (if \<not> g_ready G then (DAW_ERR_NOT_INIT, G)
      else if path = None then (DAW_ERR_INVALID_PARAM, G)
      else case find_track G tid of
          None \<Rightarrow> (DAW_ERR_INVALID_TRACK, G)
        | Some i \<Rightarrow>
            let t = g_tracks G ! i in
            if unat (t_n_clips t) \<ge> DAW_MAX_CLIPS_PER_TRACK then (DAW_ERR_CLIP_FULL, G)
            else if \<not> dec_opens env then (DAW_ERR_FILE_NOT_FOUND, G)
            else
              let total_frames = (if dec_length env = 0 then ucast (g_sr G * 30) else dec_length env)
              in if \<not> ilv_alloc env then (DAW_ERR_OUT_OF_MEMORY, G)
              else
                let ilv = take (unat total_frames) (dec_pcm env);
                    read = (of_nat (length ilv) :: u64)
                in if \<not> sl_alloc env \<or> \<not> sr_alloc env then (DAW_ERR_OUT_OF_MEMORY, G)
                else
                  let cl = \<lparr>cl_l = map fst ilv, cl_r = map snd ilv, cl_n = read,
                            cl_start_beat = 0,
                            cl_len_beats = real (unat read) / (real (unat (g_sr G)) * 60 / g_bpm G),
                            cl_active = True\<rparr>
                  in (DAW_OK,
                      update_track G i
                        (\<lambda>t. t\<lparr>t_clips := (t_clips t)[unat (t_n_clips t) := cl],
                                t_n_clips := t_n_clips t + 1\<rparr>)))"

section \<open>The audio callback\<close>

text \<open>The effective beat of frame \<open>f\<close>, after the loop wrap of the inner loop.\<close>

definition beat_at_frame :: "ctx_t \<Rightarrow> real \<Rightarrow> nat \<Rightarrow> real" where
  "beat_at_frame G bpf f =
     (let beat_at = g_pos_beats G + real f * bpf
      in if g_loop_on G \<and> beat_at \<ge> g_loop_end G
         then g_loop_start G + fmod (beat_at - g_loop_start G) (g_loop_end G - g_loop_start G)
         else beat_at)"

text \<open>
  The state of the inner loops: the two accumulators \<^verbatim>\<open>mix_l\<close>, \<^verbatim>\<open>mix_r\<close> and the
  track's running peaks \<^verbatim>\<open>tpl\<close>, \<^verbatim>\<open>tpr\<close>. A sample is read at an index below
  \<^verbatim>\<open>cl->n\<close> only, and the two buffers of a clip hold \<^verbatim>\<open>cl->n\<close> samples each, as
  \<^verbatim>\<open>daw_track_load_file\<close> allocates them. The cast to \<^verbatim>\<open>uint64_t\<close> truncates a
  value that lies between 0 and \<^verbatim>\<open>cl->n\<close>.
\<close>

type_synonym mix_acc = "real list \<times> real list \<times> real \<times> real"

definition mix_frame :: "ctx_t \<Rightarrow> real \<Rightarrow> clip_t \<Rightarrow> real \<Rightarrow> real \<Rightarrow> nat \<Rightarrow> mix_acc \<Rightarrow> mix_acc" where
  "mix_frame G bpf cl gl gr f acc =
     (case acc of (mix_l, mix_r, tpl, tpr) \<Rightarrow>
        let cl_end = cl_start_beat cl + cl_len_beats cl;
            beat_at = beat_at_frame G bpf f
        in if beat_at < cl_start_beat cl \<or> beat_at \<ge> cl_end then acc
           else
             let offset = (beat_at - cl_start_beat cl) / cl_len_beats cl;
                 fi = (word_of_int (trunc_real (offset * real (unat (cl_n cl)))) :: u64)
             in if fi \<ge> cl_n cl then acc
                else
                  let sl = cl_l cl ! unat fi * gl;
                      sr = cl_r cl ! unat fi * gr
                  in (mix_l[f := mix_l ! f + sl], mix_r[f := mix_r ! f + sr],
                      peak_update tpl sl, peak_update tpr sr))"

definition mix_clip :: "ctx_t \<Rightarrow> real \<Rightarrow> nat \<Rightarrow> real \<Rightarrow> real \<Rightarrow> clip_t \<Rightarrow> mix_acc \<Rightarrow> mix_acc" where
  "mix_clip G bpf nf gl gr cl acc =
     (if \<not> cl_active cl then acc else fold (mix_frame G bpf cl gl gr) [0..<nf] acc)"

definition mix_track ::
  "ctx_t \<Rightarrow> real \<Rightarrow> nat \<Rightarrow> track_t \<Rightarrow> real list \<times> real list \<Rightarrow> track_t \<times> real list \<times> real list" where
  "mix_track G bpf nf t m =
     (if \<not> t_active t \<or> t_muted t then (t, m)
      else if g_any_solo G \<and> \<not> t_soloed t then (t, m)
      else
        let gl = fst (pan_gains (t_pan t)) * t_vol t;
            gr = snd (pan_gains (t_pan t)) * t_vol t
        in case fold (mix_clip G bpf nf gl gr) (take (unat (t_n_clips t)) (t_clips t))
                  (fst m, snd m, 0, 0) of
             (mix_l, mix_r, tpl, tpr) \<Rightarrow> (t\<lparr>t_peak_l := tpl, t_peak_r := tpr\<rparr>, mix_l, mix_r))"

fun mix_tracks ::
  "ctx_t \<Rightarrow> real \<Rightarrow> nat \<Rightarrow> track_t list \<Rightarrow> real list \<times> real list \<Rightarrow> track_t list \<times> real list \<times> real list" where
  "mix_tracks G bpf nf [] m = ([], m)"
| "mix_tracks G bpf nf (t # ts) m =
     (case mix_track G bpf nf t m of
        (t', m') \<Rightarrow> (case mix_tracks G bpf nf ts m' of (ts', m'') \<Rightarrow> (t' # ts', m'')))"

text \<open>
  The master loop. The output buffer is the list of the samples written to
  \<^verbatim>\<open>dst[0]\<close>, \<^verbatim>\<open>dst[1]\<close>, ... in this order.
\<close>

definition master_frame ::
  "real \<Rightarrow> real list \<times> real list \<Rightarrow> nat \<Rightarrow> real list \<times> real \<times> real \<Rightarrow> real list \<times> real \<times> real" where
  "master_frame mv m f st =
     (case st of (dst, pl, pr) \<Rightarrow>
        let l = clampf (fst m ! f * mv) (- 1) 1;
            r = clampf (snd m ! f * mv) (- 1) 1
        in (dst @ [l, r], peak_update pl l, peak_update pr r))"

definition mix_pass :: "ctx_t \<Rightarrow> u32 \<Rightarrow> real list \<times> real list \<Rightarrow> ctx_t \<times> real list" where
  "mix_pass G nf m0 =
     (let spb = 60 / g_bpm G;
          spf = 1 / real (unat (g_sr G));
          bpf = spf / spb
      in case mix_tracks G bpf (unat nf) (g_tracks G) m0 of
           (ts, m) \<Rightarrow>
             (case fold (master_frame (g_master_vol G) m) [0..<unat nf]
                     ([], g_master_peak_l G, g_master_peak_r G) of
                (dst, pl, pr) \<Rightarrow>
                  let delta_secs = real (unat nf) * spf;
                      pos_secs = g_pos_secs G + delta_secs;
                      pos_beats = g_pos_beats G + delta_secs / spb;
                      G1 = G\<lparr>g_tracks := ts, g_master_peak_l := pl, g_master_peak_r := pr,
                             g_pos_secs := pos_secs, g_pos_beats := pos_beats\<rparr>
                  in (if g_loop_on G \<and> pos_beats \<ge> g_loop_end G
                      then G1\<lparr>g_pos_beats := g_loop_start G, g_pos_secs := g_loop_start G * spb\<rparr>
                      else G1,
                      dst)))"

text \<open>
  The accumulators \<^verbatim>\<open>mix_l\<close>, \<^verbatim>\<open>mix_r\<close> are stack arrays of \<^verbatim>\<open>DAW_DEFAULT_BUFFER\<close>
  floats. What they hold before the \<^verbatim>\<open>memset\<close> is never read, and is taken as zero.
  \<^verbatim>\<open>memset(buf, 0, sizeof(float) * k)\<close> zeroes the first \<open>k\<close> floats of an array; with
  \<open>k\<close> above the capacity it writes past the array, which is the fault of the model.
\<close>

datatype cb_fault = MIX_BUFFER_OVERRUN

definition stack_buffer :: "real list" where
  "stack_buffer = replicate DAW_DEFAULT_BUFFER 0"

definition memset_zero :: "real list \<Rightarrow> nat \<Rightarrow> cb_fault + real list" where
  "memset_zero buf k =
     (if k \<le> length buf then Inr (replicate k 0 @ drop k buf) else Inl MIX_BUFFER_OVERRUN)"

definition audio_cb :: "ctx_t \<Rightarrow> u32 \<Rightarrow> cb_fault + ctx_t \<times> real list" where
  "audio_cb G nf =
     (if \<not> g_ready G \<or> (g_state G \<noteq> DAW_STATE_PLAYING \<and> g_state G \<noteq> DAW_STATE_RECORDING)
        then Inr (G, replicate (unat nf * DAW_CHANNELS) 0)
      else case memset_zero stack_buffer (unat nf) of
          Inl e \<Rightarrow> Inl e
        | Inr mix_l \<Rightarrow>
            (case memset_zero stack_buffer (unat nf) of
               Inl e \<Rightarrow> Inl e
             | Inr mix_r \<Rightarrow> Inr (mix_pass G nf (mix_l, mix_r))))"

subsection \<open>The playhead in doubles\<close>

text \<open>
  The mix pass and the callback once more, with the rounding of the playhead's double
  arithmetic explicit: the three timing constants, the advance of the playhead and the
  loop snap, where every double operation is followed by \<open>rnd\<close>, the rounding of one
  operation (round to nearest in the code's binary64). The conversions of
  \<^verbatim>\<open>uint32_t\<close> to \<^verbatim>\<open>double\<close> are exact. The track loop and the master loop do not
  write the playhead and are taken as above. \<open>mix_pass\<close> and \<open>audio_cb\<close> are the
  instances without rounding.
\<close>

definition mix_pass_r ::
  "(real \<Rightarrow> real) \<Rightarrow> ctx_t \<Rightarrow> u32 \<Rightarrow> real list \<times> real list \<Rightarrow> ctx_t \<times> real list" where
  "mix_pass_r rnd G nf m0 =
     (let spb = rnd (60 / g_bpm G);
          spf = rnd (1 / real (unat (g_sr G)));
          bpf = rnd (spf / spb)
      in case mix_tracks G bpf (unat nf) (g_tracks G) m0 of
           (ts, m) \<Rightarrow>
             (case fold (master_frame (g_master_vol G) m) [0..<unat nf]
                     ([], g_master_peak_l G, g_master_peak_r G) of
                (dst, pl, pr) \<Rightarrow>
                  let delta_secs = rnd (real (unat nf) * spf);
                      pos_secs = rnd (g_pos_secs G + delta_secs);
                      pos_beats = rnd (g_pos_beats G + rnd (delta_secs / spb));
                      G1 = G\<lparr>g_tracks := ts, g_master_peak_l := pl, g_master_peak_r := pr,
                             g_pos_secs := pos_secs, g_pos_beats := pos_beats\<rparr>
                  in (if g_loop_on G \<and> pos_beats \<ge> g_loop_end G
                      then G1\<lparr>g_pos_beats := g_loop_start G,
                             g_pos_secs := rnd (g_loop_start G * spb)\<rparr>
                      else G1,
                      dst)))"

definition audio_cb_r :: "(real \<Rightarrow> real) \<Rightarrow> ctx_t \<Rightarrow> u32 \<Rightarrow> cb_fault + ctx_t \<times> real list" where
  "audio_cb_r rnd G nf =
     (if \<not> g_ready G \<or> (g_state G \<noteq> DAW_STATE_PLAYING \<and> g_state G \<noteq> DAW_STATE_RECORDING)
        then Inr (G, replicate (unat nf * DAW_CHANNELS) 0)
      else case memset_zero stack_buffer (unat nf) of
          Inl e \<Rightarrow> Inl e
        | Inr mix_l \<Rightarrow>
            (case memset_zero stack_buffer (unat nf) of
               Inl e \<Rightarrow> Inl e
             | Inr mix_r \<Rightarrow> Inr (mix_pass_r rnd G nf (mix_l, mix_r))))"

section \<open>The process: a sequence of API calls\<close>

text \<open>
  The state of the process is the global context and the static id counter. At process
  start the context is all zero and the counter is 1.
\<close>

type_synonym proc = "ctx_t \<times> u32"

definition process_start :: proc where
  "process_start = (zero_ctx, 1)"

datatype api_call =
    Init "daw_config_t option" device_outcome
  | Shutdown
  | Play
  | Stop
  | Pause
  | Record
  | Seek real
  | Set_bpm real
  | Set_loop bool real real
  | Set_master_volume real
  | Track_create daw_track_type_t bool
  | Track_destroy u32
  | Track_set_name u32 "string option"
  | Track_set_vol u32 real
  | Track_set_pan u32 real
  | Track_set_mute u32 bool
  | Track_set_solo u32 bool
  | Track_set_armed u32 bool
  | Track_load_file u32 "string option" load_env

text \<open>
  One call: its result code, the track id written through \<^verbatim>\<open>out_id\<close> (for a
  create that succeeds), and the next state of the process.
\<close>

definition on_ctx :: "daw_result_t \<times> ctx_t \<Rightarrow> u32 \<Rightarrow> (daw_result_t \<times> u32 option) \<times> proc" where
  "on_ctx r next_id = ((fst r, None), (snd r, next_id))"

fun api_step :: "api_call \<Rightarrow> proc \<Rightarrow> (daw_result_t \<times> u32 option) \<times> proc" where
  "api_step (Init cfg dev) (G, next_id) = on_ctx (daw_init G cfg dev) next_id"
| "api_step Shutdown (G, next_id) = on_ctx (daw_shutdown G) next_id"
| "api_step Play (G, next_id) = on_ctx (daw_play G) next_id"
| "api_step Stop (G, next_id) = on_ctx (daw_stop G) next_id"
| "api_step Pause (G, next_id) = on_ctx (daw_pause G) next_id"
| "api_step Record (G, next_id) = on_ctx (daw_record G) next_id"
| "api_step (Seek beat) (G, next_id) = on_ctx (daw_seek G beat) next_id"
| "api_step (Set_bpm bpm) (G, next_id) = on_ctx (daw_set_bpm G bpm) next_id"
| "api_step (Set_loop en s e) (G, next_id) = on_ctx (daw_set_loop G en s e) next_id"
| "api_step (Set_master_volume v) (G, next_id) = on_ctx (daw_set_master_volume G v) next_id"
| "api_step (Track_create ty out_ok) (G, next_id) =
     (case daw_track_create G next_id ty out_ok of
        (res, G', next_id', out_id) \<Rightarrow> ((res, out_id), (G', next_id')))"
| "api_step (Track_destroy tid) (G, next_id) = on_ctx (daw_track_destroy G tid) next_id"
| "api_step (Track_set_name tid name) (G, next_id) = on_ctx (daw_track_set_name G tid name) next_id"
| "api_step (Track_set_vol tid v) (G, next_id) = on_ctx (daw_track_set_vol G tid v) next_id"
| "api_step (Track_set_pan tid p) (G, next_id) = on_ctx (daw_track_set_pan G tid p) next_id"
| "api_step (Track_set_mute tid v) (G, next_id) = on_ctx (daw_track_set_mute G tid v) next_id"
| "api_step (Track_set_solo tid v) (G, next_id) = on_ctx (daw_track_set_solo G tid v) next_id"
| "api_step (Track_set_armed tid v) (G, next_id) = on_ctx (daw_track_set_armed G tid v) next_id"
| "api_step (Track_load_file tid path env) (G, next_id) =
     on_ctx (daw_track_load_file G tid path env) next_id"

fun run :: "api_call list \<Rightarrow> proc \<Rightarrow> (daw_result_t \<times> u32 option) list \<times> proc" where
  "run [] p = ([], p)"
| "run (c # cs) p =
     (case api_step c p of (r, p') \<Rightarrow> (case run cs p' of (rs, p'') \<Rightarrow> (r # rs, p'')))"

text \<open>The ids that the successful creates of a run returned, in the order of the calls.\<close>

definition created_ids :: "(daw_result_t \<times> u32 option) list \<Rightarrow> u32 list" where
  "created_ids rs = List.map_filter snd rs"

subsection \<open>Invariants of the context\<close>

text \<open>The derived field of the transport: seconds are beats times 60 over the tempo.\<close>

definition pos_sync :: "ctx_t \<Rightarrow> bool" where
  "pos_sync G = (g_pos_secs G = g_pos_beats G * 60 / g_bpm G)"

text \<open>The cached flag \<^verbatim>\<open>any_solo\<close> says whether some active track is soloed.\<close>

definition solo_sync :: "ctx_t \<Rightarrow> bool" where
  "solo_sync G = (g_any_solo G = list_ex (\<lambda>t. t_active t \<and> t_soloed t) (g_tracks G))"

text \<open>The track table and the clip tables keep the capacities of their arrays.\<close>

definition well_sized :: "ctx_t \<Rightarrow> bool" where
  "well_sized G =
     (length (g_tracks G) = DAW_MAX_TRACKS \<and>
      list_all (\<lambda>t. length (t_clips t) = DAW_MAX_CLIPS_PER_TRACK) (g_tracks G))"

subsection \<open>Concrete states\<close>

text \<open>The engine after \<^verbatim>\<open>daw_init(NULL)\<close> at process start, with a device that starts.\<close>

definition started :: ctx_t where
  "started = snd (daw_init zero_ctx None DEVICE_STARTED)"

text \<open>The started engine after \<^verbatim>\<open>daw_seek(2.0)\<close>.\<close>

definition sought :: ctx_t where
  "sought = snd (daw_seek started 2)"

text \<open>The started engine after \<^verbatim>\<open>daw_play()\<close>.\<close>

definition playing :: ctx_t where
  "playing = snd (daw_play started)"



text \<open>An engine configured with a period of 4096 frames, playing.\<close>

definition big_cfg :: daw_config_t where
  "big_cfg = \<lparr>sample_rate = 48000, bit_depth = 24, buffer_frames = 4096, cfg_bpm = 120\<rparr>"

definition big_playing :: ctx_t where
  "big_playing = snd (daw_play (snd (daw_init zero_ctx (Some big_cfg) DEVICE_STARTED)))"

text \<open>
  The started engine with one audio track, the first of the process (id 1), and with a
  second one (id 2).
\<close>

definition one_track :: ctx_t where
  "one_track = fst (snd (daw_track_create started 1 DAW_TRACK_AUDIO True))"

definition two_tracks :: ctx_t where
  "two_tracks = fst (snd (daw_track_create one_track 2 DAW_TRACK_AUDIO True))"

text \<open>A decoder that cannot open the file, and one that delivers four frames, an impulse.\<close>

definition no_file :: load_env where
  "no_file = \<lparr>dec_opens = False, dec_length = 0, dec_pcm = [], ilv_alloc = True,
     sl_alloc = True, sr_alloc = True\<rparr>"

definition impulse :: load_env where
  "impulse = \<lparr>dec_opens = True, dec_length = 4, dec_pcm = [(1, 1), (0, 0), (0, 0), (0, 0)],
     ilv_alloc = True, sl_alloc = True, sr_alloc = True\<rparr>"

text \<open>Two tracks, the impulse loaded as a clip of track 2, and then track 1 soloed.\<close>

definition with_clip :: ctx_t where
  "with_clip = snd (daw_track_load_file two_tracks 2 (Some ''impulse.wav'') impulse)"

definition solo_one :: ctx_t where
  "solo_one = snd (daw_track_set_solo with_clip 1 True)"

subsection \<open>Concrete call sequences\<close>

text \<open>Three creates with a shutdown and a second init between the second and the third.\<close>

definition three_creates :: "api_call list" where
  "three_creates = [Init None DEVICE_STARTED, Track_create DAW_TRACK_AUDIO True,
     Track_create DAW_TRACK_AUDIO True, Shutdown, Init None DEVICE_STARTED,
     Track_create DAW_TRACK_AUDIO True]"

text \<open>One init, one create, one shutdown: each round uses up one id.\<close>

definition create_cycle :: "api_call list" where
  "create_cycle = [Init None DEVICE_STARTED, Track_create DAW_TRACK_AUDIO True, Shutdown]"

section \<open>Properties\<close>

subsection \<open>Helper facts\<close>

lemma clampf_spec_clamp: "lo \<le> hi \<Longrightarrow> clampf v lo hi = spec_clamp v lo hi"
  by (simp add: clampf_def spec_clamp_def max_def min_def)

lemma find_track_from_Some:
  "find_track_from ts tid i = Some k \<Longrightarrow>
     i \<le> k \<and> k < i + length ts \<and> t_active (ts ! (k - i)) \<and> t_id (ts ! (k - i)) = tid"
proof (induction ts arbitrary: i)
  case Nil
  then show ?case by simp
next
  case (Cons t ts)
  show ?case
  proof (cases "t_active t \<and> t_id t = tid")
    case True
    with Cons.prems show ?thesis by simp
  next
    case False
    with Cons.prems have "find_track_from ts tid (Suc i) = Some k" by auto
    from Cons.IH [OF this] show ?thesis
      by (auto simp: nth_Cons' Suc_diff_le)
  qed
qed

lemma find_track_Some:
  "find_track G tid = Some k \<Longrightarrow>
     k < length (g_tracks G) \<and> t_active (g_tracks G ! k) \<and> t_id (g_tracks G ! k) = tid"
  using find_track_from_Some [of "g_tracks G" tid 0 k] by (simp add: find_track_def)

lemma find_track_from_update:
  "t_active (f (ts ! i)) = t_active (ts ! i) \<Longrightarrow> t_id (f (ts ! i)) = t_id (ts ! i) \<Longrightarrow>
     find_track_from (ts[i := f (ts ! i)]) tid k = find_track_from ts tid k"
proof (induction ts arbitrary: i k)
  case Nil
  then show ?case by simp
next
  case (Cons t ts)
  then show ?case by (cases i) simp_all
qed

lemma find_track_update_track:
  "t_active (f (g_tracks G ! i)) = t_active (g_tracks G ! i) \<Longrightarrow>
   t_id (f (g_tracks G ! i)) = t_id (g_tracks G ! i) \<Longrightarrow>
     find_track (update_track G i f) tid = find_track G tid"
  by (simp add: find_track_def update_track_def find_track_from_update)

lemma find_free_from_Some:
  "find_free_from ts i = Some k \<Longrightarrow> i \<le> k \<and> k < i + length ts \<and> \<not> t_active (ts ! (k - i))"
proof (induction ts arbitrary: i)
  case Nil
  then show ?case by simp
next
  case (Cons t ts)
  show ?case
  proof (cases "t_active t")
    case True
    with Cons.prems have "find_free_from ts (Suc i) = Some k" by simp
    from Cons.IH [OF this] show ?thesis by (auto simp: nth_Cons' Suc_diff_le)
  next
    case False
    with Cons.prems show ?thesis by simp
  qed
qed

lemma list_ex_update_same:
  "P (f (ts ! i)) = P (ts ! i) \<Longrightarrow> list_ex P (ts[i := f (ts ! i)]) = list_ex P ts"
proof (induction ts arbitrary: i)
  case Nil
  then show ?case by simp
next
  case (Cons t ts)
  then show ?case by (cases i) simp_all
qed

lemma list_ex_update_neither:
  "\<not> P (ts ! i) \<Longrightarrow> \<not> P t' \<Longrightarrow> list_ex P (ts[i := t']) = list_ex P ts"
proof (induction ts arbitrary: i)
  case Nil
  then show ?case by simp
next
  case (Cons t ts)
  then show ?case by (cases i) simp_all
qed

lemma unat_add_of_nat:
  "unat nid + j < 2 ^ 32 \<Longrightarrow> unat (nid + of_nat j :: u32) = unat nid + j"
  by (simp add: unat_word_ariths unat_of_nat take_bit_nat_eq_self)

lemma replicate_63: "replicate 63 x = x # replicate 62 x"
  using replicate_Suc [of 62 x] by simp

lemma replicate_128: "replicate 128 x = x # replicate 127 x"
  using replicate_Suc [of 127 x] by simp

lemma zero_track_inactive: "\<not> t_active zero_track"
  by (simp add: zero_track_def)

lemma show_nat_1: "show_nat (Suc 0) = ''1''"
  by (simp add: show_nat.simps digit_char_def)

lemma show_nat_2: "show_nat 2 = ''2''"
  by (simp add: show_nat.simps digit_char_def)

subsection \<open>The concrete states\<close>

lemma started_eq:
  "started = zero_ctx\<lparr>g_sr := 44100, g_bits := 24, g_buf_frames := 512, g_bpm := 120,
     g_master_vol := 1, g_state := DAW_STATE_STOPPED, g_ready := True\<rparr>"
  by (simp add: started_def daw_init_def zero_ctx_def DAW_DEFAULT_SR_def
      DAW_DEFAULT_BUFFER_def DAW_DEFAULT_BPM_def)

lemma tracks_started: "g_tracks started = zero_track # replicate 63 zero_track"
  using replicate_Suc [of 63 zero_track]
  by (simp add: started_eq zero_ctx_def DAW_MAX_TRACKS_def)

lemma playing_eq: "playing = started\<lparr>g_state := DAW_STATE_PLAYING\<rparr>"
  by (simp add: playing_def daw_play_def started_eq)



lemma big_playing_eq:
  "big_playing = zero_ctx\<lparr>g_sr := 48000, g_bits := 24, g_buf_frames := 4096, g_bpm := 120,
     g_master_vol := 1, g_state := DAW_STATE_PLAYING, g_ready := True\<rparr>"
  by (simp add: big_playing_def big_cfg_def daw_play_def daw_init_def zero_ctx_def)

lemma one_track_eq:
  "one_track = started\<lparr>g_tracks := zero_track\<lparr>t_active := True, t_id := 1,
      t_type := DAW_TRACK_AUDIO, t_vol := 1, t_pan := 0, t_name := ''Audio 1''\<rparr>
        # replicate 63 zero_track,
      g_n_tracks := 1\<rparr>"
  unfolding one_track_def daw_track_create_def
  by (simp add: tracks_started zero_track_inactive show_nat_1 DAW_MAX_TRACKS_def)
     (simp add: started_eq zero_ctx_def show_nat_1)

lemma find_track_from_replicate_zero:
  "find_track_from (replicate k zero_track) tid j = None"
  by (induction k arbitrary: j) (simp_all add: zero_track_inactive)

lemma find_track_started: "find_track started tid = None"
  by (simp add: find_track_def started_eq zero_ctx_def find_track_from_replicate_zero)

lemma find_track_one_track: "find_track one_track 1 = Some 0"
  by (simp add: find_track_def one_track_eq)

lemma two_tracks_eq:
  "two_tracks = started\<lparr>g_tracks :=
      zero_track\<lparr>t_active := True, t_id := 1, t_type := DAW_TRACK_AUDIO, t_vol := 1, t_pan := 0,
        t_name := ''Audio 1''\<rparr>
      # zero_track\<lparr>t_active := True, t_id := 2, t_type := DAW_TRACK_AUDIO, t_vol := 1, t_pan := 0,
        t_name := ''Audio 2''\<rparr>
      # replicate 62 zero_track,
      g_n_tracks := 2\<rparr>"
  unfolding two_tracks_def daw_track_create_def
  by (simp add: one_track_eq replicate_63 zero_track_inactive show_nat_2 DAW_MAX_TRACKS_def)
     (simp add: started_eq zero_ctx_def show_nat_2)

lemma find_track_two_tracks: "find_track two_tracks 2 = Some 1" "find_track two_tracks 1 = Some 0"
  by (simp_all add: find_track_def two_tracks_eq)

lemma with_clip_eq:
  "with_clip = started\<lparr>g_tracks :=
      zero_track\<lparr>t_active := True, t_id := 1, t_type := DAW_TRACK_AUDIO, t_vol := 1, t_pan := 0,
        t_name := ''Audio 1''\<rparr>
      # zero_track\<lparr>t_active := True, t_id := 2, t_type := DAW_TRACK_AUDIO, t_vol := 1, t_pan := 0,
        t_name := ''Audio 2'',
        t_clips := \<lparr>cl_l = [1, 0, 0, 0], cl_r = [1, 0, 0, 0], cl_n = 4, cl_start_beat = 0,
           cl_len_beats = 2 / 11025, cl_active = True\<rparr> # replicate 127 zero_clip,
        t_n_clips := 1\<rparr>
      # replicate 62 zero_track,
      g_n_tracks := 2\<rparr>"
proof -
  have r: "g_ready two_tracks" by (simp add: two_tracks_eq started_eq)
  show ?thesis
    unfolding with_clip_def daw_track_load_file_def
    by (simp add: r find_track_two_tracks Let_def impulse_def update_track_def)
       (simp add: two_tracks_eq zero_track_def DAW_MAX_CLIPS_PER_TRACK_def replicate_128
         started_eq zero_ctx_def)
qed

lemma solo_one_eq:
  "solo_one = started\<lparr>g_tracks :=
      zero_track\<lparr>t_active := True, t_id := 1, t_type := DAW_TRACK_AUDIO, t_vol := 1, t_pan := 0,
        t_name := ''Audio 1'', t_soloed := True\<rparr>
      # zero_track\<lparr>t_active := True, t_id := 2, t_type := DAW_TRACK_AUDIO, t_vol := 1, t_pan := 0,
        t_name := ''Audio 2'',
        t_clips := \<lparr>cl_l = [1, 0, 0, 0], cl_r = [1, 0, 0, 0], cl_n = 4, cl_start_beat = 0,
           cl_len_beats = 2 / 11025, cl_active = True\<rparr> # replicate 127 zero_clip,
        t_n_clips := 1\<rparr>
      # replicate 62 zero_track,
      g_n_tracks := 2, g_any_solo := True\<rparr>"
  unfolding solo_one_def daw_track_set_solo_def
  by (simp add: with_clip_eq find_track_def update_track_def refresh_solo_def)
     (simp add: started_eq zero_ctx_def)

subsection \<open>The mix pass\<close>

text \<open>
  What the mix pass does to the transport: the playhead advances, with the snap at the end
  of the loop, and nothing else of the transport changes.
\<close>

lemma mix_pass_pos_beats:
  "g_pos_beats (fst (mix_pass G nf m0)) =
     (let pb = g_pos_beats G + real (unat nf) * (1 / real (unat (g_sr G))) / (60 / g_bpm G)
      in if g_loop_on G \<and> pb \<ge> g_loop_end G then g_loop_start G else pb)"
  by (simp add: mix_pass_def Let_def split: prod.splits)

lemma mix_pass_pos_secs:
  "g_pos_secs (fst (mix_pass G nf m0)) =
     (let pb = g_pos_beats G + real (unat nf) * (1 / real (unat (g_sr G))) / (60 / g_bpm G)
      in if g_loop_on G \<and> pb \<ge> g_loop_end G then g_loop_start G * (60 / g_bpm G)
         else g_pos_secs G + real (unat nf) * (1 / real (unat (g_sr G))))"
  by (simp add: mix_pass_def Let_def split: prod.splits)

lemma mix_pass_transport:
  "g_loop_on (fst (mix_pass G nf m0)) = g_loop_on G"
  "g_loop_start (fst (mix_pass G nf m0)) = g_loop_start G"
  "g_loop_end (fst (mix_pass G nf m0)) = g_loop_end G"
  "g_bpm (fst (mix_pass G nf m0)) = g_bpm G"
  "g_sr (fst (mix_pass G nf m0)) = g_sr G"
  "g_ready (fst (mix_pass G nf m0)) = g_ready G"
  "g_state (fst (mix_pass G nf m0)) = g_state G"
  by (simp_all add: mix_pass_def Let_def split: prod.splits)

text \<open>
  A callback that passes the gate runs the mix pass when \<open>nf\<close> fits the accumulators,
  and overruns them otherwise.
\<close>

lemma memset_zero_stack_buffer:
  "k \<le> DAW_DEFAULT_BUFFER \<Longrightarrow> memset_zero stack_buffer k = Inr stack_buffer"
  by (simp add: memset_zero_def stack_buffer_def replicate_add [symmetric])


lemma audio_cb_overrun:
  "g_ready G \<Longrightarrow> g_state G = DAW_STATE_PLAYING \<or> g_state G = DAW_STATE_RECORDING \<Longrightarrow>
     (audio_cb G nf = Inl MIX_BUFFER_OVERRUN) = (DAW_DEFAULT_BUFFER < unat nf)"
  by (auto simp: audio_cb_def memset_zero_def stack_buffer_def split: sum.splits)

text \<open>
  The same for the callback with rounding; without rounding it is the callback above.
\<close>

lemma mix_pass_r_exact: "mix_pass_r (\<lambda>x. x) G nf m0 = mix_pass G nf m0"
  by (simp add: mix_pass_r_def mix_pass_def)

lemma audio_cb_r_exact: "audio_cb_r (\<lambda>x. x) G nf = audio_cb G nf"
  unfolding audio_cb_r_def audio_cb_def mix_pass_r_exact by (rule refl)


lemma mix_pass_r_pos_secs:
  "g_pos_secs (fst (mix_pass_r rnd G nf m0)) =
     (let pb = rnd (g_pos_beats G +
                rnd (rnd (real (unat nf) * rnd (1 / real (unat (g_sr G)))) / rnd (60 / g_bpm G)))
      in if g_loop_on G \<and> pb \<ge> g_loop_end G then rnd (g_loop_start G * rnd (60 / g_bpm G))
         else rnd (g_pos_secs G + rnd (real (unat nf) * rnd (1 / real (unat (g_sr G))))))"
  by (simp add: mix_pass_r_def Let_def split: prod.splits)

lemma audio_cb_r_mixes:
  "g_ready G \<Longrightarrow> g_state G = DAW_STATE_PLAYING \<or> g_state G = DAW_STATE_RECORDING \<Longrightarrow>
   unat nf \<le> DAW_DEFAULT_BUFFER \<Longrightarrow>
     audio_cb_r rnd G nf = Inr (mix_pass_r rnd G nf (stack_buffer, stack_buffer))"
  by (auto simp: audio_cb_r_def memset_zero_stack_buffer)

text \<open>
  The inner loops update the accumulators in place: their lengths never change.
\<close>

lemma mix_frame_length:
  "length (fst (mix_frame G bpf cl gl gr f acc)) = length (fst acc) \<and>
   length (fst (snd (mix_frame G bpf cl gl gr f acc))) = length (fst (snd acc))"
  by (cases acc) (simp add: mix_frame_def Let_def)

lemma fold_mix_frame_length:
  "length (fst (fold (mix_frame G bpf cl gl gr) fs acc)) = length (fst acc) \<and>
   length (fst (snd (fold (mix_frame G bpf cl gl gr) fs acc))) = length (fst (snd acc))"
  by (induction fs arbitrary: acc) (simp_all add: mix_frame_length)

lemma mix_clip_length:
  "length (fst (mix_clip G bpf nf gl gr cl acc)) = length (fst acc) \<and>
   length (fst (snd (mix_clip G bpf nf gl gr cl acc))) = length (fst (snd acc))"
  by (simp add: mix_clip_def fold_mix_frame_length)

lemma fold_mix_clip_length:
  "length (fst (fold (mix_clip G bpf nf gl gr) cls acc)) = length (fst acc) \<and>
   length (fst (snd (fold (mix_clip G bpf nf gl gr) cls acc))) = length (fst (snd acc))"
  by (induction cls arbitrary: acc) (simp_all add: mix_clip_length)

lemma mix_track_length:
  "length (fst (snd (mix_track G bpf nf t m))) = length (fst m) \<and>
   length (snd (snd (mix_track G bpf nf t m))) = length (snd m)"
proof -
  obtain a b c d where
    e: "fold (mix_clip G bpf nf (fst (pan_gains (t_pan t)) * t_vol t) (snd (pan_gains (t_pan t)) * t_vol t))
          (take (unat (t_n_clips t)) (t_clips t)) (fst m, snd m, 0, 0) = (a, b, c, d)"
    by (metis prod_cases4)
  from fold_mix_clip_length [of G bpf nf "fst (pan_gains (t_pan t)) * t_vol t"
      "snd (pan_gains (t_pan t)) * t_vol t" "take (unat (t_n_clips t)) (t_clips t)" "(fst m, snd m, 0, 0)"]
  have "length a = length (fst m)" "length b = length (snd m)"
    by (simp_all add: e)
  then show ?thesis
    by (simp add: mix_track_def Let_def e)
qed

lemma mix_tracks_length:
  "length (fst (snd (mix_tracks G bpf nf ts m))) = length (fst m) \<and>
   length (snd (snd (mix_tracks G bpf nf ts m))) = length (snd m)"
proof (induction ts arbitrary: m)
  case Nil
  then show ?case by simp
next
  case (Cons t ts)
  obtain t' m' where a: "mix_track G bpf nf t m = (t', m')" by (cases "mix_track G bpf nf t m")
  obtain ts' m'' where b: "mix_tracks G bpf nf ts m' = (ts', m'')" by (cases "mix_tracks G bpf nf ts m'")
  from mix_track_length [of G bpf nf t m] a
  have "length (fst m') = length (fst m)" "length (snd m') = length (snd m)" by simp_all
  with Cons.IH [of m'] b show ?case by (simp add: a)
qed

text \<open>
  The track loop writes only the peaks of a track.
\<close>

lemma mix_track_flags:
  "t_active (fst (mix_track G bpf nf t m)) = t_active t \<and>
   t_soloed (fst (mix_track G bpf nf t m)) = t_soloed t"
  by (simp add: mix_track_def Let_def split: prod.splits)

lemma mix_tracks_list_ex:
  "list_ex (\<lambda>t. t_active t \<and> t_soloed t) (fst (mix_tracks G bpf nf ts m)) =
   list_ex (\<lambda>t. t_active t \<and> t_soloed t) ts"
proof (induction ts arbitrary: m)
  case Nil
  then show ?case by simp
next
  case (Cons t ts)
  obtain t' m' where a: "mix_track G bpf nf t m = (t', m')" by (cases "mix_track G bpf nf t m")
  obtain ts' m'' where b: "mix_tracks G bpf nf ts m' = (ts', m'')" by (cases "mix_tracks G bpf nf ts m'")
  from mix_track_flags [of G bpf nf t m] a
  have "t_active t' = t_active t" "t_soloed t' = t_soloed t" by simp_all
  with Cons.IH [of m'] b show ?case by (simp add: a)
qed

subsection \<open>The pre-mix gate\<close>

text \<open>
  C1. When the engine is not ready, or the transport is Stopped or Paused, a callback of
  \<open>nf\<close> frames writes exactly \<open>nf * 2\<close> zero samples and returns the context as it was,
  so that \<open>pos_beats\<close> and \<open>pos_secs\<close> keep their values. No bound on \<open>nf\<close> is needed.
\<close>

theorem audio_cb_idle_silence:
  "\<not> g_ready G \<or> g_state G = DAW_STATE_STOPPED \<or> g_state G = DAW_STATE_PAUSED \<Longrightarrow>
     audio_cb G nf = Inr (G, replicate (unat nf * 2) 0)"
  by (auto simp: audio_cb_def DAW_CHANNELS_def)

theorem audio_cb_idle_silence_witness:
  "\<not> g_ready zero_ctx \<and> audio_cb zero_ctx 3 = Inr (zero_ctx, [0, 0, 0, 0, 0, 0])"
proof -
  have h: "\<not> g_ready zero_ctx" by (simp add: zero_ctx_def)
  have "replicate (unat (3 :: u32) * 2) (0::real) = [0, 0, 0, 0, 0, 0]" by code_simp
  with h audio_cb_idle_silence [of zero_ctx 3] show ?thesis by simp
qed

subsection \<open>The derived field of the transport\<close>

text \<open>
  C2. \<^verbatim>\<open>daw_set_bpm\<close> writes the tempo and leaves \<open>pos_secs\<close> as it is. On the started
  engine (120 bpm) after \<^verbatim>\<open>daw_seek(2.0)\<close> the playhead is at beat 2 and second 1, in
  sync; \<^verbatim>\<open>daw_set_bpm(60.0)\<close> returns OK and leaves beat 2 and second 1, where
  \<open>2 * 60 / 60 = 2\<close>.
\<close>

theorem set_bpm_breaks_pos_sync:
  "pos_sync sought \<and> fst (daw_set_bpm sought 60) = DAW_OK \<and>
   \<not> pos_sync (snd (daw_set_bpm sought 60))"
  by (simp add: pos_sync_def sought_def daw_seek_def daw_set_bpm_def started_eq zero_ctx_def)

text \<open>
  Every other transport write, and the mix pass, keep \<open>pos_secs\<close> in sync with
  \<open>pos_beats\<close> (the tempo is never zero on an initialised engine): \<^verbatim>\<open>daw_seek\<close> and the
  loop snap recompute the seconds from the beats, \<^verbatim>\<open>daw_stop\<close> zeroes both, the advance
  adds the same time to both. \<^verbatim>\<open>daw_set_bpm\<close> is the one write that does not.
\<close>

lemma pos_sync_kept:
  assumes "pos_sync G" and "g_bpm G \<noteq> 0"
  shows "pos_sync (snd (daw_play G))" and "pos_sync (snd (daw_stop G))"
    and "pos_sync (snd (daw_pause G))" and "pos_sync (snd (daw_record G))"
    and "pos_sync (snd (daw_seek G beat))" and "pos_sync (snd (daw_set_loop G en s e))"
    and "pos_sync (fst (mix_pass G nf m0))"
proof -
  show "pos_sync (snd (daw_play G))" "pos_sync (snd (daw_stop G))"
    "pos_sync (snd (daw_pause G))" "pos_sync (snd (daw_record G))"
    "pos_sync (snd (daw_seek G beat))" "pos_sync (snd (daw_set_loop G en s e))"
    using assms
    by (simp_all add: pos_sync_def daw_play_def daw_stop_def daw_pause_def daw_record_def
        daw_seek_def daw_set_loop_def)
  show "pos_sync (fst (mix_pass G nf m0))"
    using assms
    by (simp add: pos_sync_def mix_pass_pos_beats mix_pass_pos_secs mix_pass_transport Let_def
        field_simps)
qed

subsection \<open>Gains\<close>

text \<open>
  C3, as the code has it, for input values that are numbers (the reals of the model).
  On an initialised engine and for an existing track id, \<^verbatim>\<open>daw_track_set_vol\<close> stores
  \<open>clamp(v, 0, 2)\<close> and \<^verbatim>\<open>daw_track_set_pan\<close> stores \<open>clamp(p, -1, 1)\<close> in the track
  that the id names. On an initialised engine, with or without tracks,
  \<^verbatim>\<open>daw_set_master_volume\<close> does not clamp: for \<open>0 \<le> m \<le> 2\<close> it stores \<open>m\<close> (which is
  \<open>clamp(m, 0, 2)\<close>), and for any other \<open>m\<close> it returns InvalidParam and leaves the
  master volume as it was.
\<close>

theorem gain_clamping:
  "(g_ready G \<and> find_track G tid = Some i \<longrightarrow>
      fst (daw_track_set_vol G tid v) = DAW_OK \<and>
      find_track (snd (daw_track_set_vol G tid v)) tid = Some i \<and>
      t_vol (g_tracks (snd (daw_track_set_vol G tid v)) ! i) = spec_clamp v 0 2 \<and>
      fst (daw_track_set_pan G tid p) = DAW_OK \<and>
      find_track (snd (daw_track_set_pan G tid p)) tid = Some i \<and>
      t_pan (g_tracks (snd (daw_track_set_pan G tid p)) ! i) = spec_clamp p (- 1) 1) \<and>
   (g_ready G \<longrightarrow>
      (0 \<le> m \<and> m \<le> 2 \<longrightarrow>
         daw_set_master_volume G m = (DAW_OK, G\<lparr>g_master_vol := spec_clamp m 0 2\<rparr>)) \<and>
      (m < 0 \<or> 2 < m \<longrightarrow> daw_set_master_volume G m = (DAW_ERR_INVALID_PARAM, G)))"
proof -
  have tr: "fst (daw_track_set_vol G tid v) = DAW_OK \<and>
      find_track (snd (daw_track_set_vol G tid v)) tid = Some i \<and>
      t_vol (g_tracks (snd (daw_track_set_vol G tid v)) ! i) = spec_clamp v 0 2 \<and>
      fst (daw_track_set_pan G tid p) = DAW_OK \<and>
      find_track (snd (daw_track_set_pan G tid p)) tid = Some i \<and>
      t_pan (g_tracks (snd (daw_track_set_pan G tid p)) ! i) = spec_clamp p (- 1) 1"
    if r: "g_ready G" and f: "find_track G tid = Some i"
  proof -
    from find_track_Some [OF f] have i: "i < length (g_tracks G)" by simp
    have vol: "daw_track_set_vol G tid v = (DAW_OK, update_track G i (\<lambda>t. t\<lparr>t_vol := clampf v 0 2\<rparr>))"
      using r f by (simp add: daw_track_set_vol_def)
    have pan: "daw_track_set_pan G tid p = (DAW_OK, update_track G i (\<lambda>t. t\<lparr>t_pan := clampf p (- 1) 1\<rparr>))"
      using r f by (simp add: daw_track_set_pan_def)
    show ?thesis
      using i f
      by (simp add: vol pan find_track_update_track clampf_spec_clamp)
         (simp add: update_track_def)
  qed
  have m1: "0 \<le> m \<and> m \<le> 2 \<longrightarrow>
        daw_set_master_volume G m = (DAW_OK, G\<lparr>g_master_vol := spec_clamp m 0 2\<rparr>)"
    if "g_ready G"
    using that by (auto simp: daw_set_master_volume_def spec_clamp_def)
  have m2: "m < 0 \<or> 2 < m \<longrightarrow> daw_set_master_volume G m = (DAW_ERR_INVALID_PARAM, G)"
    if "g_ready G"
    using that by (auto simp: daw_set_master_volume_def)
  from tr m1 m2 show ?thesis by blast
qed

theorem gain_clamping_witness:
  "g_ready one_track \<and> find_track one_track 1 = Some 0 \<and>
   t_vol (g_tracks (snd (daw_track_set_vol one_track 1 3)) ! 0) = 2 \<and>
   t_pan (g_tracks (snd (daw_track_set_pan one_track 1 (- 5))) ! 0) = - 1 \<and>
   g_ready started \<and> find_track started 1 = None \<and>
   daw_set_master_volume started (3 / 2) = (DAW_OK, started\<lparr>g_master_vol := 3 / 2\<rparr>) \<and>
   daw_set_master_volume started 3 = (DAW_ERR_INVALID_PARAM, started)"
proof -
  have r: "g_ready one_track" "g_ready started" by (simp_all add: one_track_eq started_eq)
  have n: "find_track started 1 = None"
    by (rule find_track_started)
  show ?thesis
    using r n find_track_one_track
      gain_clamping [of one_track 1 0 3 "- 5" "3 / 2"]
      gain_clamping [of started 1 0 3 "- 5" "3 / 2"]
      gain_clamping [of started 1 0 3 "- 5" 3]
    by (simp add: spec_clamp_def)
qed

text \<open>
  The claim as stated fails for the master volume: on the started engine (master volume
  1), \<^verbatim>\<open>daw_set_master_volume(3.0)\<close> leaves 1, and \<open>clamp(3, 0, 2)\<close> is 2.
\<close>

theorem master_volume_not_clamped:
  "g_master_vol (snd (daw_set_master_volume started 3)) \<noteq> spec_clamp 3 0 2"
  by (simp add: daw_set_master_volume_def spec_clamp_def started_eq zero_ctx_def)

subsection \<open>The loop\<close>




subsection \<open>The playhead\<close>




text \<open>
  With rounding the advance is not exact. Whatever rounds to binary fractions, as the
  doubles of the code do, cannot leave the started engine at \<open>441 / 44100 = 1 / 100\<close>
  seconds after a callback of 441 frames: \<open>1 / 100\<close> is no integer over a power of two.
\<close>

lemma five_not_dvd_power_of_two: "\<not> (5 :: int) dvd 2 ^ k"
proof -
  have "(2 :: int) ^ k mod 5 \<in> {1, 2, 3, 4}"
  proof (induction k)
    case 0
    then show ?case by simp
  next
    case (Suc k)
    have "(2 :: int) ^ Suc k mod 5 = (2 * (2 ^ k mod 5)) mod 5"
      by (simp add: mod_mult_right_eq)
    with Suc show ?case by auto
  qed
  then show ?thesis by (auto simp: dvd_eq_mod_eq_0)
qed

lemma dyadic_not_hundredth: "real_of_int m / 2 ^ k \<noteq> 1 / 100"
proof
  assume "real_of_int m / 2 ^ k = 1 / 100"
  then have "real_of_int (100 * m) = real_of_int (2 ^ k)"
    by (simp add: field_simps)
  then have "100 * m = (2 :: int) ^ k"
    by (simp only: of_int_eq_iff)
  moreover have "(5 :: int) dvd 100 * m"
    by (rule dvd_mult2) simp
  ultimately have "(5 :: int) dvd 2 ^ k"
    by simp
  with five_not_dvd_power_of_two show False by blast
qed

lemma rounded_advance_not_exact:
  assumes "\<forall>x. \<exists>m k. rnd x = real_of_int m / 2 ^ k"
  shows "g_pos_secs (fst (projr (audio_cb_r rnd playing 441))) \<noteq> g_pos_secs playing + 441 / 44100"
proof -
  have cb: "audio_cb_r rnd playing 441 = Inr (mix_pass_r rnd playing 441 (stack_buffer, stack_buffer))"
    by (rule audio_cb_r_mixes) (simp_all add: playing_eq started_eq DAW_DEFAULT_BUFFER_def)
  have l: "\<not> g_loop_on playing" "g_pos_secs playing = 0"
    by (simp_all add: playing_eq started_eq zero_ctx_def)
  obtain y where p: "g_pos_secs (fst (mix_pass_r rnd playing 441 (stack_buffer, stack_buffer))) = rnd y"
    unfolding mix_pass_r_pos_secs Let_def using l by simp
  from assms obtain m k where "rnd y = real_of_int m / 2 ^ k" by blast
  with dyadic_not_hundredth [of m k] have "rnd y \<noteq> 1 / 100" by simp
  then show ?thesis
    unfolding cb sum.sel p l by simp
qed

subsection \<open>Solo and mute\<close>

text \<open>
  The cached flag \<open>any_solo\<close> is in sync in every state that API calls can reach from
  process start, and the mix pass keeps it in sync.
\<close>

lemma solo_sync_refresh: "solo_sync (refresh_solo G)"
  by (simp add: solo_sync_def refresh_solo_def)

lemma solo_sync_update_track:
  "solo_sync G \<Longrightarrow> t_active (f (g_tracks G ! i)) = t_active (g_tracks G ! i) \<Longrightarrow>
   t_soloed (f (g_tracks G ! i)) = t_soloed (g_tracks G ! i) \<Longrightarrow> solo_sync (update_track G i f)"
  using list_ex_update_same [of "\<lambda>t. t_active t \<and> t_soloed t" f "g_tracks G" i]
  by (simp add: solo_sync_def update_track_def)

lemma solo_sync_zero: "solo_sync zero_ctx"
  by (simp add: solo_sync_def zero_ctx_def zero_track_def list_ex_iff)

lemma solo_sync_init: "solo_sync G \<Longrightarrow> solo_sync (snd (daw_init G cfg dev))"
  using solo_sync_zero
  by (auto simp: daw_init_def solo_sync_def Let_def split: device_outcome.splits)

lemma solo_sync_create:
  assumes "solo_sync G"
  shows "solo_sync (fst (snd (daw_track_create G nid ty ok)))"
proof (cases "find_free_from (g_tracks G) 0")
  case None
  with assms show ?thesis by (simp add: daw_track_create_def)
next
  case (Some i)
  from find_free_from_Some [OF Some] have na: "\<not> t_active (g_tracks G ! i)" by simp
  have "list_ex (\<lambda>t. t_active t \<and> t_soloed t) ((g_tracks G)[i := t']) =
        list_ex (\<lambda>t. t_active t \<and> t_soloed t) (g_tracks G)" if "\<not> t_soloed t'" for t'
    using na that by (intro list_ex_update_neither) simp_all
  with assms Some show ?thesis
    by (simp add: daw_track_create_def Let_def solo_sync_def zero_track_def)
qed

lemma run_Cons_state: "snd (run (c # cs) p) = snd (run cs (snd (api_step c p)))"
  by (simp split: prod.splits)

lemma api_step_create_ctx:
  "fst (snd (api_step (Track_create ty ok) (G, nid))) = fst (snd (daw_track_create G nid ty ok))"
  by (simp split: prod.splits)

lemma solo_sync_api_step:
  assumes "solo_sync (fst p)"
  shows "solo_sync (fst (snd (api_step c p)))"
proof -
  obtain G nid where p: "p = (G, nid)" by (cases p)
  with assms have s: "solo_sync G" by simp
  have tr: "solo_sync (G\<lparr>g_state := x\<rparr>)" for x using s by (simp add: solo_sync_def)
  show ?thesis
  proof (cases c)
    case (Init cfg dev)
    with s p show ?thesis by (simp add: on_ctx_def solo_sync_init)
  next
    case Shutdown
    with s p show ?thesis by (simp add: on_ctx_def daw_shutdown_def solo_sync_zero)
  next
    case (Track_create ty ok)
    with solo_sync_create [OF s, of nid ty ok] p show ?thesis
      by (simp only: api_step_create_ctx)
  next
    case (Track_destroy tid)
    with s p show ?thesis
      by (simp add: on_ctx_def daw_track_destroy_def solo_sync_refresh split: option.splits)
  next
    case (Track_set_solo tid v)
    with s p show ?thesis
      by (simp add: on_ctx_def daw_track_set_solo_def solo_sync_refresh split: option.splits)
  next
    case (Track_load_file tid path env)
    with s p show ?thesis
      by (auto simp: on_ctx_def daw_track_load_file_def Let_def solo_sync_update_track
          split: option.splits)
  qed (use s p in \<open>auto simp: on_ctx_def solo_sync_update_track daw_play_def daw_stop_def
        daw_pause_def daw_record_def daw_seek_def daw_set_bpm_def daw_set_loop_def
        daw_set_master_volume_def daw_track_set_name_def daw_track_set_vol_def
        daw_track_set_pan_def daw_track_set_mute_def daw_track_set_armed_def
        split: option.splits\<close>,
      auto simp: solo_sync_def)
qed

lemma solo_sync_run:
  "solo_sync (fst p) \<Longrightarrow> solo_sync (fst (snd (run cs p)))"
proof (induction cs arbitrary: p)
  case Nil
  then show ?case by simp
next
  case (Cons c cs)
  from solo_sync_api_step [OF Cons.prems, of c]
  have "solo_sync (fst (snd (api_step c p)))" .
  from Cons.IH [OF this] show ?case
    by (simp only: run_Cons_state)
qed

lemma solo_sync_reachable: "solo_sync (fst (snd (run cs process_start)))"
  by (rule solo_sync_run) (simp add: process_start_def solo_sync_zero)

lemma solo_sync_mix_pass: "solo_sync G \<Longrightarrow> solo_sync (fst (mix_pass G nf m0))"
proof -
  assume s: "solo_sync G"
  let ?bpf = "1 / real (unat (g_sr G)) / (60 / g_bpm G)"
  have t: "g_tracks (fst (mix_pass G nf m0)) = fst (mix_tracks G ?bpf (unat nf) (g_tracks G) m0)"
    by (simp add: mix_pass_def Let_def split: prod.splits)
  have a: "g_any_solo (fst (mix_pass G nf m0)) = g_any_solo G"
    by (simp add: mix_pass_def Let_def split: prod.splits)
  from s show ?thesis
    by (simp add: solo_sync_def t a mix_tracks_list_ex)
qed

text \<open>
  A track that is muted, or not soloed under \<open>any_solo\<close>, is skipped by the track loop.
\<close>

lemma mix_track_silent:
  "t_muted t \<or> (g_any_solo G \<and> \<not> t_soloed t) \<Longrightarrow> mix_track G bpf nf t m = (t, m)"
  by (auto simp: mix_track_def)

lemma mix_tracks_Cons_snd:
  "snd (mix_tracks G bpf nf (t # ts) m) = snd (mix_tracks G bpf nf ts (snd (mix_track G bpf nf t m)))"
  by (simp split: prod.splits)

lemma mix_tracks_audible_only:
  "snd (mix_tracks G bpf nf ts m) =
   snd (mix_tracks G bpf nf (filter (\<lambda>t. \<not> t_muted t \<and> (g_any_solo G \<longrightarrow> t_soloed t)) ts) m)"
proof (induction ts arbitrary: m)
  case Nil
  then show ?case by simp
next
  case (Cons t ts)
  show ?case
  proof (cases "t_muted t \<or> (g_any_solo G \<and> \<not> t_soloed t)")
    case True
    from mix_track_silent [OF True] have "mix_track G bpf nf t m = (t, m)" .
    with True Cons.IH [of m] show ?thesis
      unfolding mix_tracks_Cons_snd by auto
  next
    case False
    then have "filter (\<lambda>t. \<not> t_muted t \<and> (g_any_solo G \<longrightarrow> t_soloed t)) (t # ts) =
        t # filter (\<lambda>t. \<not> t_muted t \<and> (g_any_solo G \<longrightarrow> t_soloed t)) ts"
      by auto
    with Cons.IH [of "snd (mix_track G bpf nf t m)"] show ?thesis
      unfolding mix_tracks_Cons_snd by (simp only: mix_tracks_Cons_snd)
  qed
qed

text \<open>
  C6. With \<open>any_solo\<close> in sync: a muted track, and, when some active track is soloed, a
  track that is not soloed, goes through the track loop with the accumulators (and its
  own peaks) unchanged, whatever its clips are; and the accumulators after the track loop
  are those of the loop over the tracks that are neither muted nor, under solo, unsoloed.
  In the witness track 2 holds a clip and track 1 is soloed.
\<close>

theorem solo_dominance_and_mute:
  "solo_sync G \<Longrightarrow>
     (t_muted t \<or> (list_ex (\<lambda>u. t_active u \<and> t_soloed u) (g_tracks G) \<and> \<not> t_soloed t) \<longrightarrow>
        mix_track G bpf nf t m = (t, m)) \<and>
     snd (mix_tracks G bpf nf ts m) =
       snd (mix_tracks G bpf nf
             (filter (\<lambda>t. \<not> t_muted t \<and>
                (list_ex (\<lambda>u. t_active u \<and> t_soloed u) (g_tracks G) \<longrightarrow> t_soloed t)) ts) m)"
  using mix_track_silent [of t G bpf nf m] mix_tracks_audible_only [of G bpf nf ts m]
  by (simp add: solo_sync_def)

theorem solo_dominance_and_mute_witness:
  "solo_sync solo_one \<and> list_ex (\<lambda>u. t_active u \<and> t_soloed u) (g_tracks solo_one) \<and>
   t_active (g_tracks solo_one ! 1) \<and> \<not> t_soloed (g_tracks solo_one ! 1) \<and>
   t_n_clips (g_tracks solo_one ! 1) = 1 \<and>
   mix_track solo_one (1 / 22050) 4 (g_tracks solo_one ! 1) (stack_buffer, stack_buffer) =
     (g_tracks solo_one ! 1, stack_buffer, stack_buffer) \<and>
   snd (mix_tracks solo_one (1 / 22050) 4 (g_tracks solo_one) (stack_buffer, stack_buffer)) =
     snd (mix_tracks solo_one (1 / 22050) 4 [g_tracks solo_one ! 0] (stack_buffer, stack_buffer))"
proof -
  have s: "solo_sync solo_one"
    by (simp add: solo_one_eq solo_sync_def)
  have e: "list_ex (\<lambda>u. t_active u \<and> t_soloed u) (g_tracks solo_one)"
    by (simp add: solo_one_eq)
  have t: "t_active (g_tracks solo_one ! 1)" "\<not> t_soloed (g_tracks solo_one ! 1)"
    "t_n_clips (g_tracks solo_one ! 1) = 1"
    by (simp_all add: solo_one_eq zero_track_def)
  have f: "filter (\<lambda>t. \<not> t_muted t \<and>
                (list_ex (\<lambda>u. t_active u \<and> t_soloed u) (g_tracks solo_one) \<longrightarrow> t_soloed t))
             (g_tracks solo_one) = [g_tracks solo_one ! 0]"
    by (simp add: solo_one_eq zero_track_def)
  note th = solo_dominance_and_mute [OF s, of "g_tracks solo_one ! 1" "1 / 22050" 4
      "(stack_buffer, stack_buffer)" "g_tracks solo_one", unfolded f]
  from th s e t show ?thesis by (simp del: mix_tracks.simps)
qed

subsection \<open>The sizes of the tables\<close>

text \<open>
  In every state that API calls can reach the track table has \<open>DAW_MAX_TRACKS\<close> slots and
  every clip table \<open>DAW_MAX_CLIPS_PER_TRACK\<close>, so the loops over the lists are the loops
  of the code over the arrays.
\<close>

lemma well_sized_zero: "well_sized zero_ctx"
  by (simp add: well_sized_def zero_ctx_def zero_track_def list_all_iff)

lemma list_all_update: "list_all P ts \<Longrightarrow> P t \<Longrightarrow> list_all P (ts[i := t])"
proof (induction ts arbitrary: i)
  case Nil
  then show ?case by simp
next
  case (Cons a ts)
  then show ?case by (cases i) simp_all
qed

lemma list_all_update_nth:
  assumes "list_all P ts" and "P (ts ! i) \<Longrightarrow> P (f (ts ! i))"
  shows "list_all P (ts[i := f (ts ! i)])"
proof (cases "i < length ts")
  case True
  with assms(1) have "P (ts ! i)" by (simp add: list_all_length)
  with assms show ?thesis by (intro list_all_update) simp_all
next
  case False
  then have "ts[i := f (ts ! i)] = ts" by (intro list_update_beyond) simp
  with assms(1) show ?thesis by simp
qed

lemma well_sized_update_track:
  assumes "well_sized G" and "\<And>t. length (t_clips (f t)) = length (t_clips t)"
  shows "well_sized (update_track G i f)"
  using assms(1)
    list_all_update_nth [of "\<lambda>t. length (t_clips t) = DAW_MAX_CLIPS_PER_TRACK" "g_tracks G" i f]
  by (simp add: well_sized_def update_track_def assms(2))

lemma well_sized_fields:
  "g_tracks G' = g_tracks G \<Longrightarrow> well_sized G \<Longrightarrow> well_sized G'"
  by (simp add: well_sized_def)

lemma well_sized_api_step:
  assumes "well_sized (fst p)"
  shows "well_sized (fst (snd (api_step c p)))"
proof -
  obtain G nid where p: "p = (G, nid)" by (cases p)
  with assms have s: "well_sized G" by simp
  show ?thesis
  proof (cases c)
    case (Init cfg dev)
    with s p well_sized_zero show ?thesis
      by (auto simp: on_ctx_def daw_init_def Let_def well_sized_def split: device_outcome.splits)
  next
    case Shutdown
    with s p show ?thesis by (simp add: on_ctx_def daw_shutdown_def well_sized_zero)
  next
    case (Track_create ty ok)
    have "well_sized (fst (snd (daw_track_create G nid ty ok)))"
      using s
      by (auto simp: daw_track_create_def Let_def well_sized_def zero_track_def
          intro!: list_all_update split: option.splits)
    with Track_create p show ?thesis by (simp only: api_step_create_ctx fst_conv snd_conv)
  next
    case (Track_destroy tid)
    have "well_sized (update_track G i (\<lambda>t. t\<lparr>t_active := False\<rparr>))" for i
      using s by (rule well_sized_update_track) simp
    then have "well_sized (refresh_solo (G\<lparr>g_tracks := (g_tracks G)[i := (g_tracks G ! i)\<lparr>t_active := False\<rparr>],
                             g_n_tracks := g_n_tracks G - 1\<rparr>))" for i
      by (simp add: well_sized_def update_track_def refresh_solo_def)
    with Track_destroy s p show ?thesis
      by (simp add: on_ctx_def daw_track_destroy_def split: option.splits)
  next
    case (Track_set_solo tid v)
    have "well_sized (update_track G i (\<lambda>t. t\<lparr>t_soloed := v\<rparr>))" for i
      using s by (rule well_sized_update_track) simp
    then have "well_sized (refresh_solo (update_track G i (\<lambda>t. t\<lparr>t_soloed := v\<rparr>)))" for i
      by (simp add: well_sized_def refresh_solo_def)
    with Track_set_solo s p show ?thesis
      by (simp add: on_ctx_def daw_track_set_solo_def split: option.splits)
  next
    case (Track_load_file tid path env)
    with s p show ?thesis
      by (auto simp: on_ctx_def daw_track_load_file_def Let_def well_sized_update_track
          split: option.splits)
  qed (use s p in \<open>auto simp: on_ctx_def well_sized_update_track daw_play_def daw_stop_def
        daw_pause_def daw_record_def daw_seek_def daw_set_bpm_def daw_set_loop_def
        daw_set_master_volume_def daw_track_set_name_def daw_track_set_vol_def
        daw_track_set_pan_def daw_track_set_mute_def daw_track_set_armed_def
        split: option.splits\<close>,
      auto simp: well_sized_def)
qed

lemma well_sized_reachable: "well_sized (fst (snd (run cs p)))" if "well_sized (fst p)"
  using that
proof (induction cs arbitrary: p)
  case Nil
  then show ?case by simp
next
  case (Cons c cs)
  from well_sized_api_step [OF Cons.prems, of c]
  have "well_sized (fst (snd (api_step c p)))" .
  from Cons.IH [OF this] show ?case
    by (simp only: run_Cons_state)
qed

lemma well_sized_start: "well_sized (fst (snd (run cs process_start)))"
  by (rule well_sized_reachable) (simp add: process_start_def well_sized_zero)

subsection \<open>Clip loading\<close>

text \<open>
  C7. Whenever \<^verbatim>\<open>daw_track_load_file\<close> returns a code other than OK, the whole context,
  and with it the target track, its clip count and its clips, is what it was before the
  call. The witness is a load that fails with FileNotFound on an existing track.
\<close>

theorem load_file_error_unchanged:
  "fst (daw_track_load_file G tid path env) \<noteq> DAW_OK \<Longrightarrow>
     snd (daw_track_load_file G tid path env) = G"
  by (auto simp: daw_track_load_file_def Let_def split: option.splits if_splits)

theorem load_file_error_unchanged_witness:
  "daw_track_load_file one_track 1 (Some ''a.wav'') no_file = (DAW_ERR_FILE_NOT_FOUND, one_track)"
proof -
  have r: "fst (daw_track_load_file one_track 1 (Some ''a.wav'') no_file) = DAW_ERR_FILE_NOT_FOUND"
    by (simp add: daw_track_load_file_def find_track_one_track Let_def no_file_def)
       (simp add: one_track_eq started_eq zero_track_def DAW_MAX_CLIPS_PER_TRACK_def)
  from r load_file_error_unchanged [of one_track 1 "Some ''a.wav''" no_file]
  show ?thesis by (simp add: prod_eq_iff)
qed

text \<open>
  Each of the error codes is returned under its condition, in the order of the checks.
\<close>

lemma load_file_codes_no_track:
  "\<not> g_ready G \<Longrightarrow> fst (daw_track_load_file G tid path env) = DAW_ERR_NOT_INIT"
  "g_ready G \<Longrightarrow> find_track G tid = None \<Longrightarrow>
     fst (daw_track_load_file G tid (Some p) env) = DAW_ERR_INVALID_TRACK"
  "g_ready G \<Longrightarrow> find_track G tid = Some i \<Longrightarrow>
   DAW_MAX_CLIPS_PER_TRACK \<le> unat (t_n_clips (g_tracks G ! i)) \<Longrightarrow>
     fst (daw_track_load_file G tid (Some p) env) = DAW_ERR_CLIP_FULL"
  by (auto simp: daw_track_load_file_def Let_def)

lemma load_file_codes:
  assumes "g_ready G" and "find_track G tid = Some i"
    and "unat (t_n_clips (g_tracks G ! i)) < DAW_MAX_CLIPS_PER_TRACK"
  shows "fst (daw_track_load_file G tid None env) = DAW_ERR_INVALID_PARAM"
    and "\<not> dec_opens env \<Longrightarrow> fst (daw_track_load_file G tid (Some path) env) = DAW_ERR_FILE_NOT_FOUND"
    and "dec_opens env \<Longrightarrow> \<not> (ilv_alloc env \<and> sl_alloc env \<and> sr_alloc env) \<Longrightarrow>
           fst (daw_track_load_file G tid (Some path) env) = DAW_ERR_OUT_OF_MEMORY"
    and "dec_opens env \<Longrightarrow> ilv_alloc env \<and> sl_alloc env \<and> sr_alloc env \<Longrightarrow>
           fst (daw_track_load_file G tid (Some path) env) = DAW_OK"
  using assms by (auto simp: daw_track_load_file_def Let_def)

subsection \<open>Track ids\<close>

text \<open>
  Every call leaves the id counter as it is, except a create that succeeds, which returns
  the counter and adds one to it. So the ids of a run are consecutive values of the counter.
\<close>

lemma create_out:
  "daw_track_create G nid ty ok = (res, G', nid', out) \<Longrightarrow>
     (res = DAW_OK \<and> out = Some nid \<and> nid' = nid + 1) \<or> (res \<noteq> DAW_OK \<and> out = None \<and> nid' = nid)"
  by (auto simp: daw_track_create_def Let_def split: if_splits option.splits)

lemma api_step_out:
  "api_step c (G, nid) = ((res, out), (G', nid')) \<Longrightarrow>
     (out = Some nid \<and> nid' = nid + 1) \<or> (out = None \<and> nid' = nid)"
proof (cases c)
  case (Track_create ty ok)
  assume "api_step c (G, nid) = ((res, out), (G', nid'))"
  with Track_create have "daw_track_create G nid ty ok = (res, G', nid', out)"
    by (simp split: prod.splits)
  from create_out [OF this] show ?thesis by blast
qed (auto simp: on_ctx_def)

lemma created_ids_Cons:
  "created_ids ((res, out) # rs) = (case out of None \<Rightarrow> created_ids rs | Some i \<Rightarrow> i # created_ids rs)"
  by (simp add: created_ids_def List.map_filter_simps split: option.splits)

lemma run_ids:
  "created_ids (fst (run cs (G, nid))) =
     map (\<lambda>j. nid + of_nat j) [0..<length (created_ids (fst (run cs (G, nid))))] \<and>
   snd (snd (run cs (G, nid))) = nid + of_nat (length (created_ids (fst (run cs (G, nid)))))"
proof (induction cs arbitrary: G nid)
  case Nil
  then show ?case by (simp add: created_ids_def List.map_filter_simps)
next
  case (Cons c cs)
  obtain res out G' nid' where st: "api_step c (G, nid) = ((res, out), (G', nid'))"
    by (metis prod.exhaust)
  obtain rs p'' where rn: "run cs (G', nid') = (rs, p'')" by (cases "run cs (G', nid')")
  have r: "run (c # cs) (G, nid) = ((res, out) # rs, p'')"
    by (simp add: st rn)
  note ih = Cons.IH [of G' nid', unfolded rn fst_conv snd_conv]
  from api_step_out [OF st] show ?case
  proof
    assume a: "out = Some nid \<and> nid' = nid + 1"
    have "map (\<lambda>j. nid + of_nat j) [0..<Suc (length (created_ids rs))] =
          nid # map (\<lambda>j. nid + 1 + of_nat j) [0..<length (created_ids rs)]"
      by (simp only: map_upt_Suc) (simp add: add.assoc)
    with a ih show ?thesis
      unfolding r fst_conv snd_conv created_ids_Cons by (simp add: add.assoc)
  next
    assume a: "out = None \<and> nid' = nid"
    with ih show ?thesis
      unfolding r fst_conv snd_conv created_ids_Cons by simp
  qed
qed

lemma ids_increasing:
  assumes "unat (nid :: u32) + k \<le> 2 ^ 32"
  shows "sorted_wrt (<) (map (\<lambda>j. nid + of_nat j) [0..<k])"
proof -
  have "nid + of_nat i < nid + of_nat j" if "i < j" "j < k" for i j
  proof -
    from that assms have "unat nid + i < 2 ^ 32" "unat nid + j < 2 ^ 32" by simp_all
    then have "unat (nid + of_nat i) = unat nid + i" "unat (nid + of_nat j) = unat nid + j"
      by (simp_all add: unat_add_of_nat)
    with that show ?thesis by (simp add: word_less_nat_alt)
  qed
  then show ?thesis
    by (simp add: sorted_wrt_iff_nth_less)
qed

text \<open>
  C8, as the code has it. From process start, over any sequence of API calls (creates,
  destroys, shutdowns, inits and all the others), the ids that the successful creates
  return are \<open>1, 2, 3, ...\<close> in a 32-bit counter that no call resets. They are strictly
  increasing, and so never repeat, as long as fewer than \<open>2^32\<close> creates have succeeded.
\<close>

theorem created_ids_increasing:
  "length (created_ids (fst (run cs process_start))) < 2 ^ 32 \<Longrightarrow>
     sorted_wrt (<) (created_ids (fst (run cs process_start))) \<and>
     distinct (created_ids (fst (run cs process_start)))"
proof -
  let ?ids = "created_ids (fst (run cs process_start))"
  assume "length ?ids < 2 ^ 32"
  then have "unat (1 :: u32) + length ?ids \<le> 2 ^ 32" by simp
  from ids_increasing [OF this] run_ids [of cs zero_ctx 1]
  have s: "sorted_wrt (<) ?ids" by (simp add: process_start_def)
  then have "distinct ?ids"
    using strict_sorted_iff by (auto simp: strict_sorted_iff)
  with s show ?thesis by simp
qed

lemma init_fresh: "\<not> g_ready G \<Longrightarrow> daw_init G None DEVICE_STARTED = (DAW_OK, started)"
  by (simp add: daw_init_def started_def zero_ctx_def)

lemma create_started:
  "\<exists>G'. daw_track_create started nid DAW_TRACK_AUDIO True = (DAW_OK, G', nid + 1, Some nid) \<and> g_ready G'"
  unfolding daw_track_create_def
  by (simp add: tracks_started zero_track_inactive DAW_MAX_TRACKS_def)
     (simp add: started_eq zero_ctx_def)

lemma create_one_track:
  "daw_track_create one_track 2 DAW_TRACK_AUDIO True = (DAW_OK, two_tracks, 3, Some 2)"
  unfolding two_tracks_def daw_track_create_def
  by (simp add: one_track_eq replicate_63 zero_track_inactive DAW_MAX_TRACKS_def)
     (simp add: started_eq zero_ctx_def)

lemma create_started_1:
  "daw_track_create started 1 DAW_TRACK_AUDIO True = (DAW_OK, one_track, 2, Some 1)"
  using create_started [of 1] by (auto simp: one_track_def)

lemma three_creates_ids: "created_ids (fst (run three_creates process_start)) = [1, 2, 3]"
proof -
  obtain G' where c3: "daw_track_create started 3 DAW_TRACK_AUDIO True = (DAW_OK, G', 4, Some 3)"
    using create_started [of 3] by auto
  have z: "\<not> g_ready zero_ctx" by (simp add: zero_ctx_def)
  have r2: "g_ready two_tracks" by (simp add: two_tracks_eq started_eq)
  show ?thesis
    by (simp add: three_creates_def process_start_def on_ctx_def init_fresh [OF z]
        create_started_1 create_one_track daw_shutdown_def r2 c3 created_ids_def
        List.map_filter_simps)
qed

theorem created_ids_increasing_witness:
  "created_ids (fst (run three_creates process_start)) = [1, 2, 3] \<and>
   length (created_ids (fst (run three_creates process_start))) < 2 ^ 32 \<and>
   sorted_wrt (<) (created_ids (fst (run three_creates process_start))) \<and>
   distinct (created_ids (fst (run three_creates process_start)))"
proof -
  have l: "length (created_ids (fst (run three_creates process_start))) < 2 ^ 32"
    by (simp add: three_creates_ids)
  from created_ids_increasing [OF l] l three_creates_ids show ?thesis by simp
qed

lemma run_append:
  "run (xs @ ys) p = (fst (run xs p) @ fst (run ys (snd (run xs p))), snd (run ys (snd (run xs p))))"
  by (induction xs arbitrary: p) (simp_all split: prod.splits)

lemma created_ids_append: "created_ids (xs @ ys) = created_ids xs @ created_ids ys"
  by (simp add: created_ids_def map_filter_def)

lemma run_create_cycle:
  assumes "\<not> g_ready G"
  shows "run create_cycle (G, nid) =
     ([(DAW_OK, None), (DAW_OK, Some nid), (DAW_OK, None)], (zero_ctx, nid + 1))"
proof -
  obtain G' where c: "daw_track_create started nid DAW_TRACK_AUDIO True = (DAW_OK, G', nid + 1, Some nid)"
    and r: "g_ready G'"
    using create_started [of nid] by auto
  show ?thesis
    by (simp add: create_cycle_def on_ctx_def init_fresh [OF assms] c daw_shutdown_def r)
qed

lemma run_create_cycles:
  "\<not> g_ready G \<Longrightarrow>
     length (created_ids (fst (run (concat (replicate k create_cycle)) (G, nid)))) = k \<and>
     \<not> g_ready (fst (snd (run (concat (replicate k create_cycle)) (G, nid))))"
proof (induction k arbitrary: G nid)
  case 0
  then show ?case by (simp add: created_ids_def List.map_filter_simps)
next
  case (Suc k)
  have z: "\<not> g_ready zero_ctx" by (simp add: zero_ctx_def)
  from Suc.IH [OF z, of "nid + 1"] show ?case
    by (simp add: run_append run_create_cycle [OF Suc.prems] created_ids_append)
       (simp add: created_ids_def List.map_filter_simps)
qed

text \<open>
  The claim as stated fails when the counter wraps: after \<open>2^32\<close> rounds of init, create,
  shutdown the ids returned are \<open>1, ..., 2^32 - 1, 0\<close>, and the last is below all others.
\<close>

theorem created_ids_wrap_around:
  "\<not> sorted_wrt (<) (created_ids (fst (run (concat (replicate (2 ^ 32) create_cycle)) process_start)))"
proof
  let ?ids = "created_ids (fst (run (concat (replicate (2 ^ 32) create_cycle)) process_start))"
  assume s: "sorted_wrt (<) ?ids"
  have z: "\<not> g_ready zero_ctx" by (simp add: zero_ctx_def)
  from run_create_cycles [OF z, of "2 ^ 32" 1]
  have len: "length ?ids = 2 ^ 32" by (simp add: process_start_def)
  from run_ids [of "concat (replicate (2 ^ 32) create_cycle)" zero_ctx 1]
  have ids: "?ids = map (\<lambda>j. (1 :: u32) + of_nat j) [0..<2 ^ 32]"
    unfolding process_start_def [symmetric] len by simp
  have i: "?ids ! (2 ^ 32 - 2) = (1 :: u32) + of_nat (2 ^ 32 - 2)"
    unfolding ids by (subst nth_map) simp_all
  have j: "?ids ! (2 ^ 32 - 1) = (1 :: u32) + of_nat (2 ^ 32 - 1)"
    unfolding ids by (subst nth_map) simp_all
  from s have "?ids ! (2 ^ 32 - 2) < ?ids ! (2 ^ 32 - 1)"
    unfolding sorted_wrt_iff_nth_less len by (rule allE [of _ "2 ^ 32 - 2"]) simp
  then show False
    unfolding i j by simp
qed

subsection \<open>Lifecycle\<close>

text \<open>
  C9. \<^verbatim>\<open>daw_init\<close> on an engine that is already initialised returns AlreadyInit and
  leaves the context unchanged; \<^verbatim>\<open>daw_shutdown\<close> and \<^verbatim>\<open>daw_get_state\<close> on an engine
  that is not initialised return NotInit (and change or write nothing).
\<close>

theorem lifecycle_error_codes:
  "(g_ready G \<longrightarrow> daw_init G cfg dev = (DAW_ERR_ALREADY_INIT, G)) \<and>
   (\<not> g_ready G \<longrightarrow> daw_shutdown G = (DAW_ERR_NOT_INIT, G)) \<and>
   (\<not> g_ready G \<longrightarrow> daw_get_state G out_ok = (DAW_ERR_NOT_INIT, None))"
  by (simp add: daw_init_def daw_shutdown_def daw_get_state_def)

theorem lifecycle_error_codes_witness:
  "g_ready started \<and> \<not> g_ready zero_ctx \<and>
   daw_init started None DEVICE_STARTED = (DAW_ERR_ALREADY_INIT, started) \<and>
   daw_shutdown zero_ctx = (DAW_ERR_NOT_INIT, zero_ctx) \<and>
   daw_get_state zero_ctx True = (DAW_ERR_NOT_INIT, None)"
  using lifecycle_error_codes [of started None DEVICE_STARTED True]
    lifecycle_error_codes [of zero_ctx None DEVICE_STARTED True]
  by (simp add: started_eq zero_ctx_def)

text \<open>
  A shutdown leaves the all-zero context, on which a second shutdown and
  \<^verbatim>\<open>daw_get_state\<close> return NotInit.
\<close>

lemma shutdown_twice:
  "g_ready G \<Longrightarrow> daw_shutdown G = (DAW_OK, zero_ctx)"
  "daw_shutdown zero_ctx = (DAW_ERR_NOT_INIT, zero_ctx)"
  "daw_get_state zero_ctx out_ok = (DAW_ERR_NOT_INIT, None)"
  by (simp_all add: daw_shutdown_def daw_get_state_def zero_ctx_def)

subsection \<open>The capacity of the accumulators\<close>

text \<open>
  C10. In the mix pass the callback overruns its accumulators exactly when \<open>nf\<close> exceeds
  512, whatever \<open>buf_frames\<close> the engine was configured with; for \<open>nf \<le> 512\<close> every
  frame index \<open>f < nf\<close> is within both accumulators, which keep their 512 entries
  through the track loop. \<^verbatim>\<open>daw_init\<close> stores any \<^verbatim>\<open>cfg->buffer_frames\<close> as it is.
\<close>

theorem mix_buffer_capacity:
  "(g_ready G \<and> (g_state G = DAW_STATE_PLAYING \<or> g_state G = DAW_STATE_RECORDING) \<longrightarrow>
      (audio_cb (G\<lparr>g_buf_frames := b\<rparr>) nf = Inl MIX_BUFFER_OVERRUN) = (512 < unat nf)) \<and>
   (\<forall>f < unat nf. unat nf \<le> 512 \<longrightarrow>
      f < length (fst (snd (mix_tracks G bpf (unat nf) ts
            (stack_buffer, stack_buffer)))) \<and>
      f < length (snd (snd (mix_tracks G bpf (unat nf) ts
            (stack_buffer, stack_buffer))))) \<and>
   (\<not> g_ready G0 \<longrightarrow>
      fst (daw_init G0 (Some cfg) DEVICE_STARTED) = DAW_OK \<and>
      g_buf_frames (snd (daw_init G0 (Some cfg) DEVICE_STARTED)) = buffer_frames cfg)"
proof -
  have a: "g_ready G \<and> (g_state G = DAW_STATE_PLAYING \<or> g_state G = DAW_STATE_RECORDING) \<longrightarrow>
      (audio_cb (G\<lparr>g_buf_frames := b\<rparr>) nf = Inl MIX_BUFFER_OVERRUN) = (512 < unat nf)"
    using audio_cb_overrun [of "G\<lparr>g_buf_frames := b\<rparr>" nf]
    by (simp add: DAW_DEFAULT_BUFFER_def)
  have c: "\<not> g_ready G0 \<longrightarrow>
      fst (daw_init G0 (Some cfg) DEVICE_STARTED) = DAW_OK \<and>
      g_buf_frames (snd (daw_init G0 (Some cfg) DEVICE_STARTED)) = buffer_frames cfg"
    by (simp add: daw_init_def)
  from a c show ?thesis
    by (simp add: mix_tracks_length stack_buffer_def DAW_DEFAULT_BUFFER_def)
qed

theorem mix_buffer_capacity_witness:
  "g_ready big_playing \<and> g_state big_playing = DAW_STATE_PLAYING \<and> \<not> g_ready zero_ctx \<and>
   g_buf_frames big_playing = 4096 \<and>
   audio_cb big_playing 4096 = Inl MIX_BUFFER_OVERRUN \<and>
   audio_cb big_playing 512 \<noteq> Inl MIX_BUFFER_OVERRUN \<and>
   (511 :: nat) < unat (512 :: u32) \<and>
   511 < length (fst (snd (mix_tracks big_playing 0 (unat (512 :: u32)) (g_tracks big_playing)
            (stack_buffer, stack_buffer)))) \<and>
   fst (daw_init zero_ctx (Some big_cfg) DEVICE_STARTED) = DAW_OK \<and>
   g_buf_frames (snd (daw_init zero_ctx (Some big_cfg) DEVICE_STARTED)) = 4096"
proof -
  have e: "big_playing\<lparr>g_buf_frames := 4096\<rparr> = big_playing"
    by (simp add: big_playing_eq)
  have h: "g_ready big_playing" "g_state big_playing = DAW_STATE_PLAYING" "\<not> g_ready zero_ctx"
    "g_buf_frames big_playing = 4096" "buffer_frames big_cfg = 4096"
    by (simp_all add: big_playing_eq zero_ctx_def big_cfg_def)
  show ?thesis
    using h mix_buffer_capacity [of big_playing 4096 4096 0 "g_tracks big_playing" zero_ctx big_cfg]
      mix_buffer_capacity [of big_playing 4096 512 0 "g_tracks big_playing" zero_ctx big_cfg]
    by (simp add: e)
qed

end
